theory Spec2Isabelle
  imports Complex_Main
begin

section \<open>The BOPES sampler of \<^verbatim>\<open>pes_samplers/bopes_sampler.py\<close>\<close>

text \<open>
  The module samples a potential-energy surface: \<^verbatim>\<open>BOPESSampler.sample\<close> solves a
  ground-state problem at each point of a list and collects the energies, warm-starting a
  variational solver from the optimal parameters of the points already evaluated.

  Conventions of the embedding.
  \<^item> A sweep point is a finite Python float and is modelled by the real number it denotes.
    The results of the arithmetic on points (the distance computation of the warm start) are
    double-precision values: each operation rounds the exact result to the nearest double,
    ties to even, with gradual underflow and with overflow to infinity.
  \<^item> Python objects that the sampler shares with its caller (the solver, the extrapolator)
    live in an explicit store and are referred to by address, so that an assignment through
    one reference is seen through every other.
  \<^item> Every \<^verbatim>\<open>raise\<close> of the source, and every failing built-in operation on the way, is a
    value \<open>Inl e\<close> of a sum type.
  \<^item> The collaborators that are not part of the module (the solving engine, the problem's
    operator construction, the converter, the extrapolation algorithm, the factory) are
    functions stored in the objects that own them. They are taken to return normally and to
    change nothing but what their type shows: a factory may change the store, the others
    change nothing.
\<close>

subsection \<open>Exceptions\<close>

datatype error =
    QiskitNatureError
  | ValueError
  | IndexError
  | TypeError
  | AttributeError
  | UnboundLocalError

subsection \<open>Insertion-ordered dictionaries\<close>

text \<open>
  A Python \<^verbatim>\<open>dict\<close> keeps its keys in insertion order; \<^verbatim>\<open>d[k] = v\<close> on a key that is present
  replaces the value in place, and on a new key appends the entry.
\<close>

fun dict_setitem :: "'k \<Rightarrow> 'v \<Rightarrow> ('k \<times> 'v) list \<Rightarrow> ('k \<times> 'v) list" where
  "dict_setitem k v [] = [(k, v)]"
| "dict_setitem k v ((k', v') # d) =
     (if k' = k then (k, v) # d else (k', v') # dict_setitem k v d)"

definition dict_keys :: "('k \<times> 'v) list \<Rightarrow> 'k list" where
  "dict_keys d = map fst d"

definition dict_values :: "('k \<times> 'v) list \<Rightarrow> 'v list" where
  "dict_values d = map snd d"

definition dict_get :: "('k \<times> 'v) list \<Rightarrow> 'k \<Rightarrow> 'v option" where
  "dict_get d k = map_of d k"

text \<open>\<^verbatim>\<open>d.pop(k, None)\<close> over values that may themselves be \<^verbatim>\<open>None\<close>: the value found (or
  \<^verbatim>\<open>None\<close>), and the dictionary without the key.\<close>

definition dict_pop :: "'k \<Rightarrow> ('k \<times> 'v option) list \<Rightarrow> 'v option \<times> ('k \<times> 'v option) list" where
  "dict_pop k d =
     ((case map_of d k of None \<Rightarrow> None | Some v \<Rightarrow> v), filter (\<lambda>kv. fst kv \<noteq> k) d)"

text \<open>The keys of a dictionary built by successive assignments: each key at the position of
  its first assignment.\<close>

fun first_occurrences :: "'k list \<Rightarrow> 'k list" where
  "first_occurrences [] = []"
| "first_occurrences (x # xs) = x # filter (\<lambda>y. y \<noteq> x) (first_occurrences xs)"

subsection \<open>Double-precision arithmetic\<close>

text \<open>The values of IEEE 754 binary64: the finite ones by the real number they denote, the two
  infinities and NaN.\<close>

datatype double = Finite real | PosInf | NegInf | NaN

text \<open>The nearest integer, ties to the even one.\<close>

definition round_half_even :: "real \<Rightarrow> int" where
  "round_half_even r =
     (let f = \<lfloor>r\<rfloor>; d = r - of_int f
      in if d < 1 / 2 then f else if 1 / 2 < d then f + 1 else if even f then f else f + 1)"

text \<open>Rounding of a non-negative real \<open>x\<close> to a double. With \<open>e\<close> the binary exponent of \<open>x\<close>, not
  below the exponent -1022 of the subnormal numbers, the doubles around \<open>x\<close> are the multiples
  of 2 to the power \<open>e - 52\<close>; the nearest one is taken, and a result of 2 to the power 1024 or
  more is infinite.\<close>

definition round_magnitude :: "real \<Rightarrow> double" where
  "round_magnitude x =
     (if x = 0 then Finite 0
      else
        (let e = max \<lfloor>log 2 x\<rfloor> (- 1022);
             q = 2 powr (of_int e - 52);
             y = of_int (round_half_even (x / q)) * q
         in if 2 powr 1024 \<le> y then PosInf else Finite y))"

fun fl_neg :: "double \<Rightarrow> double" where
  "fl_neg (Finite x) = Finite (- x)"
| "fl_neg PosInf = NegInf"
| "fl_neg NegInf = PosInf"
| "fl_neg NaN = NaN"

text \<open>Rounding is symmetric about zero.\<close>

definition round_double :: "real \<Rightarrow> double" where
  "round_double x = (if x < 0 then fl_neg (round_magnitude (- x)) else round_magnitude x)"

text \<open>The operations that the distance computation uses, each the rounded exact result:
  the difference of two points, the sum, the square (the product of a value with itself)
  and the square root.\<close>

definition fl_subtract :: "real \<Rightarrow> real \<Rightarrow> double" where
  "fl_subtract x y = round_double (x - y)"

fun fl_add :: "double \<Rightarrow> double \<Rightarrow> double" where
  "fl_add (Finite x) (Finite y) = round_double (x + y)"
| "fl_add NaN _ = NaN"
| "fl_add _ NaN = NaN"
| "fl_add PosInf NegInf = NaN"
| "fl_add NegInf PosInf = NaN"
| "fl_add PosInf _ = PosInf"
| "fl_add _ PosInf = PosInf"
| "fl_add NegInf _ = NegInf"
| "fl_add _ NegInf = NegInf"

fun fl_square :: "double \<Rightarrow> double" where
  "fl_square (Finite x) = round_double (x * x)"
| "fl_square PosInf = PosInf"
| "fl_square NegInf = PosInf"
| "fl_square NaN = NaN"

fun fl_sqrt :: "double \<Rightarrow> double" where
  "fl_sqrt (Finite x) = (if x < 0 then NaN else round_double (sqrt x))"
| "fl_sqrt PosInf = PosInf"
| "fl_sqrt NegInf = NaN"
| "fl_sqrt NaN = NaN"

subsection \<open>numpy: \<^verbatim>\<open>linalg.norm\<close> along a row and \<^verbatim>\<open>argmin\<close>\<close>

text \<open>\<^verbatim>\<open>np.linalg.norm(distances, axis=1)\<close> computes, for each row, the square root of the sum
  of the squares of its entries, in doubles. The points are floats, so every row of the
  distance array has one entry and the sum is that entry's square.\<close>

fun add_reduce :: "double list \<Rightarrow> double" where
  "add_reduce [] = Finite 0"
| "add_reduce (x # xs) = foldl fl_add x xs"

definition linalg_norm :: "double list \<Rightarrow> double" where
  "linalg_norm row = fl_sqrt (add_reduce (map fl_square row))"

text \<open>\<^verbatim>\<open>np.argmin\<close> returns the index of the first occurrence of the minimum, and of the
  first NaN when there is one: \<open>double_le\<close> is the order it minimises. On an empty array numpy
  raises; the only call is guarded by \<^verbatim>\<open>if prev_points\<close>.\<close>

fun double_le :: "double \<Rightarrow> double \<Rightarrow> bool" where
  "double_le NaN _ = True"
| "double_le _ NaN = False"
| "double_le NegInf _ = True"
| "double_le _ NegInf = False"
| "double_le _ PosInf = True"
| "double_le PosInf _ = False"
| "double_le (Finite x) (Finite y) = (x \<le> y)"

fun argmin :: "double list \<Rightarrow> nat" where
  "argmin [] = 0"
| "argmin [x] = 0"
| "argmin (x # y # ys) =
     (let i = argmin (y # ys) in if double_le x ((y # ys) ! i) then 0 else Suc i)"

subsection \<open>The collaborators\<close>

type_synonym params = "real list"

datatype second_q_op = SecondQuantizedOp string
datatype qubit_op = QubitOp string

record raw_result =
  optimal_point :: params
  eigenvalue :: real

record eigenstate_result =
  total_energies :: "real list"
  raw_result :: raw_result

text \<open>A minimum eigensolver object. \<open>is_VariationalAlgorithm\<close> is the outcome of
  \<^verbatim>\<open>isinstance(solver, VariationalAlgorithm)\<close>; \<open>compute_minimum_eigenvalue\<close> receives the
  operator and the object's own \<open>initial_point\<close> at the time of the call.\<close>

record minimum_eigensolver =
  is_VariationalAlgorithm :: bool
  initial_point :: "params option"
  compute_minimum_eigenvalue :: "qubit_op \<Rightarrow> params option \<Rightarrow> raw_result"

text \<open>An extrapolator object. \<open>is_WindowExtrapolator\<close> is the outcome of
  \<^verbatim>\<open>isinstance(extrapolator, WindowExtrapolator)\<close>; \<open>extrapolate\<close> receives the object's own
  \<open>window\<close>, the list of target points and the dictionary of parameters.\<close>

record extrapolator =
  is_WindowExtrapolator :: bool
  window :: int
  extrapolate :: "int \<Rightarrow> real list \<Rightarrow> (real \<times> params) list \<Rightarrow> (real \<times> params) list"

text \<open>The object store: solver and extrapolator objects by address, and the next free
  address for a solver.\<close>

record store =
  solvers :: "nat \<Rightarrow> minimum_eigensolver"
  extrapolators :: "nat \<Rightarrow> extrapolator"
  next_ref :: nat

datatype driver_kind =
    DeprecatedBaseDriver
  | ElectronicStructureMoleculeDriver
  | VibrationalStructureMoleculeDriver
  | OtherDriver

record molecule =
  perturbations :: "real list"

record driver =
  kind :: driver_kind
  driver_molecule :: "molecule option"

text \<open>What \<^verbatim>\<open>problem.second_q_ops()\<close> returns: a list, a dictionary whose values may be
  \<^verbatim>\<open>None\<close>, or something else.\<close>

datatype second_q_ops_t =
    OpsList "second_q_op list"
  | OpsDict "(string \<times> second_q_op option) list"
  | OpsOther

text \<open>A problem. \<open>second_q_ops\<close> builds a new collection at every call, from the driver as
  it is then; \<open>problem_interpret\<close> (the method \<^verbatim>\<open>interpret\<close>) turns a raw solver result into an eigenstate result.\<close>

record problem =
  problem_driver :: driver
  second_q_ops :: "driver \<Rightarrow> second_q_ops_t"
  main_property_name :: string
  num_particles :: "nat \<times> nat"
  problem_interpret :: "raw_result \<Rightarrow> eigenstate_result"

record qubit_converter =
  convert :: "second_q_op \<Rightarrow> nat \<times> nat \<Rightarrow> qubit_op"

text \<open>The \<^verbatim>\<open>gss\<close> argument: a ground-state solver, which holds a reference to its solver
  object and solves a problem with it, or a factory, whose \<^verbatim>\<open>get_solver\<close> returns a
  reference to a solver object and may allocate or change objects of the store.\<close>

datatype gss_t =
    GroundStateSolver nat "problem \<Rightarrow> minimum_eigensolver \<Rightarrow> eigenstate_result"
  | MinimumEigensolverFactory "problem \<Rightarrow> qubit_converter \<Rightarrow> store \<Rightarrow> nat \<times> store"

subsection \<open>\<^verbatim>\<open>prepare_problem\<close>\<close>

text \<open>Lines 50 to 60: the choice of the main operator. The result is paired with the
  collection as the lines leave it, since \<^verbatim>\<open>second_q_ops.pop(name, None)\<close> changes the
  dictionary also when the function raises.\<close>

definition main_second_q_op :: "problem \<Rightarrow> second_q_ops_t \<times> (error + second_q_op)" where
  "main_second_q_op p =
     (case second_q_ops p (problem_driver p) of
        OpsList l \<Rightarrow>
          (case l of
             [] \<Rightarrow> (OpsList l, Inl IndexError)
           | op # _ \<Rightarrow> (OpsList l, Inr op))
      | OpsDict d \<Rightarrow>
          (let name = main_property_name p;
               (popped, d') = dict_pop name d
           in case popped of
                None \<Rightarrow> (OpsDict d', Inl ValueError)
              | Some op \<Rightarrow> (OpsDict d', Inr op))
      | OpsOther \<Rightarrow> (OpsOther, Inl UnboundLocalError))"

text \<open>Lines 61 to 66: the conversion of the main operator.\<close>

definition prepare_problem ::
  "problem \<Rightarrow> qubit_converter \<Rightarrow> second_q_ops_t \<times> (error + qubit_op)" where
  "prepare_problem p qc =
     (let (ops, main) = main_second_q_op p
      in case main of
           Inl err \<Rightarrow> (ops, Inl err)
         | Inr op \<Rightarrow> (ops, Inr (convert qc op (num_particles p))))"

subsection \<open>The sampler\<close>

record bopes_sampler_result =
  result_points :: "real list"
  result_energies :: "real list"
  result_raw_results :: "(real \<times> eigenstate_result) list"

text \<open>The fields of a \<^verbatim>\<open>BOPESSampler\<close> instance (\<^verbatim>\<open>self._x\<close> is \<open>self_x\<close>), together with the
  object store its references point into. \<^verbatim>\<open>self._driver\<close> is an alias of the driver of
  \<^verbatim>\<open>self._problem\<close> and has no field of its own.\<close>

record state =
  self_gss :: gss_t
  self_tolerance :: real
  self_bootstrap :: bool
  self_problem :: "problem option"
  self_points :: "real list option"
  self_energies :: "real list option"
  self_raw_results :: "(real \<times> eigenstate_result) list option"
  self_points_optparams :: "(real \<times> params) list option"
  self_num_bootstrap :: "int option"
  self_extrapolator :: "nat option"
  self_solver :: "nat option"
  self_initial_point :: "params option"
  self_qubit_converter :: "qubit_converter option"
  heap :: store

definition set_initial_point :: "nat \<Rightarrow> params option \<Rightarrow> store \<Rightarrow> store" where
  "set_initial_point a v h = h\<lparr>solvers := (solvers h)(a := (solvers h a)\<lparr>initial_point := v\<rparr>)\<rparr>"

definition set_window :: "nat \<Rightarrow> int \<Rightarrow> store \<Rightarrow> store" where
  "set_window a w h = h\<lparr>extrapolators := (extrapolators h)(a := (extrapolators h a)\<lparr>window := w\<rparr>)\<rparr>"

text \<open>\<^verbatim>\<open>isinstance(self._solver, VariationalAlgorithm)\<close>; false while \<^verbatim>\<open>self._solver\<close> is
  \<^verbatim>\<open>None\<close>.\<close>

definition solver_is_variational :: "state \<Rightarrow> bool" where
  "solver_is_variational s =
     (case self_solver s of
        None \<Rightarrow> False
      | Some a \<Rightarrow> is_VariationalAlgorithm (solvers (heap s) a))"

subsubsection \<open>\<^verbatim>\<open>__init__\<close>\<close>

definition init ::
  "gss_t \<Rightarrow> real \<Rightarrow> bool \<Rightarrow> int option \<Rightarrow> nat option \<Rightarrow> qubit_converter option \<Rightarrow> store
     \<Rightarrow> error + state" where
  "init gss tolerance bootstrap num_bootstrap extrapolator qubit_converter h =
     (let s0 = \<lparr> self_gss = gss, self_tolerance = tolerance, self_bootstrap = bootstrap,
                 self_problem = None, self_points = None, self_energies = None,
                 self_raw_results = None, self_points_optparams = None,
                 self_num_bootstrap = num_bootstrap, self_extrapolator = extrapolator,
                 self_solver = (case gss of GroundStateSolver a _ \<Rightarrow> Some a
                                | MinimumEigensolverFactory _ \<Rightarrow> None),
                 self_initial_point = None, self_qubit_converter = qubit_converter,
                 heap = h \<rparr>;
          checked =
            (case extrapolator of
               None \<Rightarrow> Inr s0
             | Some e \<Rightarrow>
                 (case num_bootstrap of
                    None \<Rightarrow> Inr (s0\<lparr>self_num_bootstrap := Some 2\<rparr>)
                  | Some k \<Rightarrow>
                      if k \<ge> 2 then
                        (if \<not> is_WindowExtrapolator (extrapolators h e)
                         then Inl QiskitNatureError
                         else Inr (s0\<lparr>self_num_bootstrap := Some k,
                                      heap := set_window e k h\<rparr>))
                      else Inl QiskitNatureError))
      in case checked of
           Inl err \<Rightarrow> Inl err
         | Inr s1 \<Rightarrow>
             (case gss of
                GroundStateSolver a _ \<Rightarrow>
                  if solver_is_variational s1
                  then Inr (s1\<lparr>self_initial_point := initial_point (solvers (heap s1) a)\<rparr>)
                  else Inr s1
              | MinimumEigensolverFactory _ \<Rightarrow> Inr s1))"

subsubsection \<open>\<^verbatim>\<open>_run_single_point\<close>\<close>

text \<open>Lines 233 to 248: the driver check, then \<^verbatim>\<open>self._driver.molecule.perturbations =
  [point]\<close>. Before the first \<^verbatim>\<open>sample\<close> the driver is \<^verbatim>\<open>None\<close>, which the check rejects.\<close>

definition check_driver :: "driver \<Rightarrow> error + unit" where
  "check_driver d =
     (case kind d of
        DeprecatedBaseDriver \<Rightarrow> Inr ()
      | ElectronicStructureMoleculeDriver \<Rightarrow> Inr ()
      | VibrationalStructureMoleculeDriver \<Rightarrow> Inr ()
      | OtherDriver \<Rightarrow> Inl QiskitNatureError)"

definition set_geometry :: "real \<Rightarrow> state \<Rightarrow> error + state" where
  "set_geometry point s =
     (case self_problem s of
        None \<Rightarrow> Inl QiskitNatureError
      | Some p \<Rightarrow>
          (case check_driver (problem_driver p) of
             Inl err \<Rightarrow> Inl err
           | Inr _ \<Rightarrow>
               (case driver_molecule (problem_driver p) of
                  None \<Rightarrow> Inl AttributeError
                | Some m \<Rightarrow>
                    Inr (s\<lparr>self_problem := Some (p\<lparr>problem_driver :=
                           (problem_driver p)\<lparr>driver_molecule :=
                              Some (m\<lparr>perturbations := [point]\<rparr>)\<rparr>\<rparr>)\<rparr>))))"

text \<open>Lines 251 to 276: the choice of the initial point from the points already run.\<close>

definition warm_start :: "real \<Rightarrow> state \<Rightarrow> error + state" where
  "warm_start point s =
     (case self_solver s of
        None \<Rightarrow> Inr s
      | Some a \<Rightarrow>
          if is_VariationalAlgorithm (solvers (heap s) a) \<and> self_bootstrap s then
            (case self_points_optparams s of
               None \<Rightarrow> Inl AttributeError
             | Some opt_params \<Rightarrow>
                 (let prev_points = dict_keys opt_params;
                      prev_params = dict_values opt_params;
                      n_pp = length prev_points;
                      n_boot = (case self_extrapolator s of
                                  None \<Rightarrow> Some (int (length prev_points))
                                | Some _ \<Rightarrow> self_num_bootstrap s)
                  in if prev_points \<noteq> [] then
                       (case n_boot of
                          None \<Rightarrow> Inl TypeError
                        | Some nb \<Rightarrow>
                            if int n_pp \<le> nb then
                              (let distances = map (\<lambda>q. [fl_subtract point q]) prev_points;
                                   min_index = argmin (map linalg_norm distances)
                               in Inr (s\<lparr>heap := set_initial_point a
                                           (Some (prev_params ! min_index)) (heap s)\<rparr>))
                            else
                              (case self_extrapolator s of
                                 None \<Rightarrow> Inl AttributeError
                               | Some e \<Rightarrow>
                                   (let ex = extrapolators (heap s) e;
                                        param_sets =
                                          extrapolate ex (window ex) [point] opt_params
                                    in Inr (s\<lparr>heap := set_initial_point a
                                                (dict_get param_sets point) (heap s)\<rparr>))))
                     else Inr s))
          else Inr s)"

text \<open>Lines 279 to 287: the solve, by the ground-state solver with its own solver object, or
  by a solver newly obtained from the factory. Without a converter \<^verbatim>\<open>prepare_problem\<close> fails
  where it calls \<^verbatim>\<open>convert\<close>, after the choice of the main operator.\<close>

definition solve :: "state \<Rightarrow> error + (eigenstate_result \<times> state)" where
  "solve s =
     (case self_problem s of
        None \<Rightarrow> Inl AttributeError
      | Some p \<Rightarrow>
          (case self_gss s of
             GroundStateSolver a gss_solve \<Rightarrow> Inr (gss_solve p (solvers (heap s) a), s)
           | MinimumEigensolverFactory get_solver \<Rightarrow>
               (case self_qubit_converter s of
                  None \<Rightarrow>
                    (case snd (main_second_q_op p) of
                       Inl err \<Rightarrow> Inl err
                     | Inr _ \<Rightarrow> Inl AttributeError)
                | Some qc \<Rightarrow>
                    (case snd (prepare_problem p qc) of
                       Inl err \<Rightarrow> Inl err
                     | Inr main_operator \<Rightarrow>
                         (let (a, h') = get_solver p qc (heap s);
                              sv = solvers h' a;
                              raw_mes_result =
                                compute_minimum_eigenvalue sv main_operator (initial_point sv)
                          in Inr (problem_interpret p raw_mes_result,
                                  s\<lparr>self_solver := Some a, heap := h'\<rparr>))))))"

text \<open>Lines 290 to 293: the optimal point is saved when the solver is variational.\<close>

definition save_optimal_point :: "real \<Rightarrow> eigenstate_result \<Rightarrow> state \<Rightarrow> error + state" where
  "save_optimal_point point result s =
     (if solver_is_variational s then
        (case self_points_optparams s of
           None \<Rightarrow> Inl TypeError
         | Some opt_params \<Rightarrow>
             Inr (s\<lparr>self_points_optparams :=
                      Some (dict_setitem point (optimal_point (raw_result result)) opt_params)\<rparr>))
      else Inr s)"

definition run_single_point :: "real \<Rightarrow> state \<Rightarrow> error + (eigenstate_result \<times> state)" where
  "run_single_point point s =
     (case set_geometry point s of
        Inl err \<Rightarrow> Inl err
      | Inr s1 \<Rightarrow>
          (case warm_start point s1 of
             Inl err \<Rightarrow> Inl err
           | Inr s2 \<Rightarrow>
               (case solve s2 of
                  Inl err \<Rightarrow> Inl err
                | Inr (result, s3) \<Rightarrow>
                    (case save_optimal_point point result s3 of
                       Inl err \<Rightarrow> Inl err
                     | Inr s4 \<Rightarrow> Inr (result, s4)))))"

subsubsection \<open>\<^verbatim>\<open>_run_points\<close>\<close>

text \<open>Lines 206 to 209.\<close>

definition reset_history :: "state \<Rightarrow> state" where
  "reset_history s =
     (case self_solver s of
        None \<Rightarrow> s
      | Some a \<Rightarrow>
          if is_VariationalAlgorithm (solvers (heap s) a)
          then s\<lparr>self_points_optparams := Some [],
                 heap := set_initial_point a (self_initial_point s) (heap s)\<rparr>
          else s)"

text \<open>Lines 212 to 215: the loop over the points.\<close>

fun run_loop ::
  "real list \<Rightarrow> (real \<times> eigenstate_result) list \<Rightarrow> state
     \<Rightarrow> error + ((real \<times> eigenstate_result) list \<times> state)" where
  "run_loop [] raw_results s = Inr (raw_results, s)"
| "run_loop (point # points) raw_results s =
     (case run_single_point point s of
        Inl err \<Rightarrow> Inl err
      | Inr (raw_res, s') \<Rightarrow> run_loop points (dict_setitem point raw_res raw_results) s')"

definition run_points ::
  "real list \<Rightarrow> state \<Rightarrow> error + ((real \<times> eigenstate_result) list \<times> state)" where
  "run_points points s = run_loop points [] (reset_history s)"

subsubsection \<open>\<^verbatim>\<open>sample\<close>\<close>

text \<open>Lines 188 to 191: \<^verbatim>\<open>res.total_energies[0]\<close> for every value of the dictionary.\<close>

fun first_energies :: "eigenstate_result list \<Rightarrow> error + real list" where
  "first_energies [] = Inr []"
| "first_energies (res # rest) =
     (case total_energies res of
        [] \<Rightarrow> Inl IndexError
      | energy # _ \<Rightarrow>
          (case first_energies rest of
             Inl err \<Rightarrow> Inl err
           | Inr energies \<Rightarrow> Inr (energy # energies)))"

text \<open>Lines 176 to 182: a factory is asked for its solver before the computation starts.\<close>

definition force_solver :: "problem \<Rightarrow> state \<Rightarrow> error + state" where
  "force_solver p s =
     (case self_gss s of
        GroundStateSolver _ _ \<Rightarrow> Inr s
      | MinimumEigensolverFactory get_solver \<Rightarrow>
          (case self_qubit_converter s of
             None \<Rightarrow> Inl QiskitNatureError
           | Some qc \<Rightarrow>
               (case snd (prepare_problem p qc) of
                  Inl err \<Rightarrow> Inl err
                | Inr _ \<Rightarrow>
                    (let (a, h') = get_solver p qc (heap s)
                     in Inr (s\<lparr>self_solver := Some a, heap := h'\<rparr>)))))"

definition sample :: "problem \<Rightarrow> real list \<Rightarrow> state \<Rightarrow> error + (bopes_sampler_result \<times> state)" where
  "sample p points s =
     (let s1 = s\<lparr>self_problem := Some p\<rparr>
      in case check_driver (problem_driver p) of
           Inl err \<Rightarrow> Inl err
         | Inr _ \<Rightarrow>
             (case driver_molecule (problem_driver p) of
                None \<Rightarrow> Inl QiskitNatureError
              | Some _ \<Rightarrow>
                  (case force_solver p s1 of
                     Inl err \<Rightarrow> Inl err
                   | Inr s2 \<Rightarrow>
                       (case run_points points s2 of
                          Inl err \<Rightarrow> Inl err
                        | Inr (raw_results, s3) \<Rightarrow>
                            (case first_energies (dict_values raw_results) of
                               Inl err \<Rightarrow> Inl err
                             | Inr energies \<Rightarrow>
                                 Inr (\<lparr> result_points = dict_keys raw_results,
                                        result_energies = energies,
                                        result_raw_results = raw_results \<rparr>,
                                      s3\<lparr>self_raw_results := Some raw_results,
                                         self_points := Some (dict_keys raw_results),
                                         self_energies := Some energies\<rparr>))))))"

subsection \<open>The nearest neighbour, in the words of the specification\<close>

text \<open>The stored parameter vector of the first key, in insertion order, whose distance to the
  point is minimal among all keys of the history: with the Euclidean distance itself, and
  with the distance as lines 265 to 267 compute it.\<close>

definition nearest_neighbour :: "real \<Rightarrow> (real \<times> params) list \<Rightarrow> params option" where
  "nearest_neighbour point history =
     map_option snd
       (find (\<lambda>kv. \<forall>kv' \<in> set history. \<bar>point - fst kv\<bar> \<le> \<bar>point - fst kv'\<bar>) history)"

definition computed_distance :: "real \<Rightarrow> real \<Rightarrow> double" where
  "computed_distance point q = linalg_norm [fl_subtract point q]"

definition nearest_by_computed_distance ::
  "real \<Rightarrow> (real \<times> params) list \<Rightarrow> params option" where
  "nearest_by_computed_distance point history =
     map_option snd
       (find (\<lambda>kv. \<forall>kv' \<in> set history.
                 double_le (computed_distance point (fst kv)) (computed_distance point (fst kv')))
          history)"

subsection \<open>Example objects\<close>

text \<open>A variational and a non-variational solver, a window and a plain extrapolator, a store
  holding them, a problem and a converter: the concrete inputs at which the theorems below
  are instantiated.\<close>

definition example_solve :: "problem \<Rightarrow> minimum_eigensolver \<Rightarrow> eigenstate_result" where
  "example_solve p sv =
     (let x = (case driver_molecule (problem_driver p) of None \<Rightarrow> [] | Some m \<Rightarrow> perturbations m);
          e = sum_list x + (case initial_point sv of None \<Rightarrow> 0 | Some v \<Rightarrow> sum_list v)
      in \<lparr> total_energies = [e], raw_result = \<lparr> optimal_point = x, eigenvalue = e \<rparr> \<rparr>)"

definition example_compute :: "qubit_op \<Rightarrow> params option \<Rightarrow> raw_result" where
  "example_compute op ip =
     \<lparr> optimal_point = [7], eigenvalue = (case ip of None \<Rightarrow> 0 | Some v \<Rightarrow> sum_list v) \<rparr>"

definition vqe :: minimum_eigensolver where
  "vqe = \<lparr> is_VariationalAlgorithm = True, initial_point = None,
           compute_minimum_eigenvalue = example_compute \<rparr>"

definition numpy_solver :: minimum_eigensolver where
  "numpy_solver = \<lparr> is_VariationalAlgorithm = False, initial_point = None,
           compute_minimum_eigenvalue = example_compute \<rparr>"

definition example_extrapolate :: "int \<Rightarrow> real list \<Rightarrow> (real \<times> params) list \<Rightarrow> (real \<times> params) list" where
  "example_extrapolate w pts d = map (\<lambda>p. (p, [of_int w, real (length d)])) pts"

definition window_extrapolator :: extrapolator where
  "window_extrapolator = \<lparr> is_WindowExtrapolator = True, window = 5, extrapolate = example_extrapolate \<rparr>"

definition plain_extrapolator :: extrapolator where
  "plain_extrapolator = \<lparr> is_WindowExtrapolator = False, window = 0, extrapolate = example_extrapolate \<rparr>"

definition example_store :: store where
  "example_store = \<lparr> solvers = (\<lambda>a. if a = 0 then vqe else numpy_solver),
                     extrapolators = (\<lambda>a. if a = 0 then window_extrapolator else plain_extrapolator),
                     next_ref = 2 \<rparr>"

definition example_problem :: problem where
  "example_problem =
     \<lparr> problem_driver = \<lparr> kind = ElectronicStructureMoleculeDriver,
                          driver_molecule = Some \<lparr> perturbations = [] \<rparr> \<rparr>,
       second_q_ops = (\<lambda>d. OpsList [SecondQuantizedOp ''H'']),
       main_property_name = ''ElectronicEnergy'',
       num_particles = (1, 1),
       problem_interpret = (\<lambda>raw. \<lparr> total_energies = [eigenvalue raw], raw_result = raw \<rparr>) \<rparr>"

definition example_converter :: qubit_converter where
  "example_converter = \<lparr> convert = (\<lambda>op n. case op of SecondQuantizedOp l \<Rightarrow> QubitOp l) \<rparr>"

text \<open>A problem whose operators come as a mapping without the main entry.\<close>

definition bad_problem :: problem where
  "bad_problem = example_problem\<lparr>second_q_ops :=
      (\<lambda>d. OpsDict [(''ParticleNumber'', Some (SecondQuantizedOp ''N''))])\<rparr>"

text \<open>Two sampler instances: one without an extrapolator, as the constructor leaves it, and
  one with the window extrapolator and a window of 2, bound to the example problem.\<close>

definition example_sampler :: state where
  "example_sampler =
     \<lparr> self_gss = GroundStateSolver 0 example_solve, self_tolerance = 0.001,
       self_bootstrap = True, self_problem = None, self_points = None, self_energies = None,
       self_raw_results = None, self_points_optparams = None, self_num_bootstrap = None,
       self_extrapolator = None, self_solver = Some 0, self_initial_point = None,
       self_qubit_converter = None, heap = example_store \<rparr>"

definition example_window_sampler :: state where
  "example_window_sampler =
     example_sampler\<lparr> self_num_bootstrap := Some 2, self_extrapolator := Some 0,
                      self_problem := Some example_problem,
                      heap := set_window 0 2 example_store \<rparr>"

text \<open>The first sampler bound to the example problem, as \<^verbatim>\<open>sample\<close> binds it.\<close>

definition example_bound_sampler :: state where
  "example_bound_sampler = example_sampler\<lparr>self_problem := Some example_problem\<rparr>"

text \<open>A sampler whose ground-state solver holds the non-variational solver, with
  bootstrapping enabled.\<close>

definition example_numpy_sampler :: state where
  "example_numpy_sampler =
     example_bound_sampler\<lparr> self_gss := GroundStateSolver 1 example_solve,
                             self_solver := Some 1 \<rparr>"

text \<open>A factory that hands out the variational solver for electronic problems and the
  non-variational one for the others, a vibrational problem, and a sampler built on the
  factory.\<close>

definition kind_by_problem_factory :: "problem \<Rightarrow> qubit_converter \<Rightarrow> store \<Rightarrow> nat \<times> store" where
  "kind_by_problem_factory p qc h =
     (if main_property_name p = ''ElectronicEnergy'' then (0, h) else (1, h))"

definition vibrational_problem :: problem where
  "vibrational_problem =
     example_problem\<lparr> problem_driver := \<lparr> kind = VibrationalStructureMoleculeDriver,
                                            driver_molecule = Some \<lparr> perturbations = [] \<rparr> \<rparr>,
                       main_property_name := ''VibrationalEnergy'' \<rparr>"

definition example_factory_sampler :: state where
  "example_factory_sampler =
     example_sampler\<lparr> self_gss := MinimumEigensolverFactory kind_by_problem_factory,
                      self_solver := None,
                      self_qubit_converter := Some example_converter \<rparr>"

text \<open>A factory whose \<^verbatim>\<open>get_solver\<close> builds a new variational solver at every call, and a
  sampler built on it.\<close>

definition fresh_factory :: "problem \<Rightarrow> qubit_converter \<Rightarrow> store \<Rightarrow> nat \<times> store" where
  "fresh_factory p qc h =
     (next_ref h, h\<lparr> solvers := (solvers h)(next_ref h := vqe), next_ref := Suc (next_ref h) \<rparr>)"

definition example_fresh_factory_sampler :: state where
  "example_fresh_factory_sampler =
     example_sampler\<lparr> self_gss := MinimumEigensolverFactory fresh_factory,
                      self_solver := None,
                      self_qubit_converter := Some example_converter \<rparr>"

section \<open>Properties\<close>

subsection \<open>Basic facts\<close>

lemma map_of_filter_key: "map_of (filter (\<lambda>kv. fst kv \<noteq> k) d) k = None"
  by (induction d) auto

subsection \<open>Rounding\<close>

lemma double_le_refl [simp]: "double_le a a"
  by (cases a) simp_all

lemma double_le_total: "double_le a b \<or> double_le b a"
  by (cases a; cases b) auto

lemma double_le_trans: "double_le a b \<Longrightarrow> double_le b c \<Longrightarrow> double_le a c"
  by (cases a; cases b; cases c) auto

lemma round_half_even_le: "z \<le> of_int n \<Longrightarrow> round_half_even z \<le> n"
  unfolding round_half_even_def Let_def
  by (auto simp add: floor_le_iff)

lemma round_half_even_ge: "of_int n \<le> z \<Longrightarrow> n \<le> round_half_even z"
proof -
  assume "of_int n \<le> z"
  then have "n \<le> \<lfloor>z\<rfloor>" by (simp add: le_floor_iff)
  then show ?thesis unfolding round_half_even_def Let_def by auto
qed

lemma log2_floor_le:
  assumes "0 < x" and "x \<le> 2 powr of_int m"
  shows "\<lfloor>log 2 x\<rfloor> \<le> m"
proof -
  from assms have "log 2 x \<le> of_int m" by (simp add: log_le_iff)
  then show ?thesis by (simp add: floor_le_iff)
qed

lemma log2_floor_ge:
  assumes "2 powr of_int m \<le> x"
  shows "m \<le> \<lfloor>log 2 x\<rfloor>"
proof -
  have "0 < (2::real) powr of_int m" by simp
  with assms have "0 < x" by linarith
  with assms have "of_int m \<le> log 2 x" by (simp add: le_log_iff)
  then show ?thesis by (simp add: le_floor_iff)
qed

text \<open>Rounding does not cross a power of two: an upper and a lower bound.\<close>

lemma round_magnitude_le:
  assumes "0 \<le> x" and "x \<le> 2 powr of_int m" and "- 1022 \<le> m" and "m \<le> 1023"
  shows "\<exists>y. round_magnitude x = Finite y \<and> 0 \<le> y \<and> y \<le> 2 powr of_int m"
proof (cases "x = 0")
  case True
  then show ?thesis by (simp add: round_magnitude_def)
next
  case False
  with assms(1) have pos: "0 < x" by simp
  define e where "e = max \<lfloor>log 2 x\<rfloor> (- 1022)"
  define q :: real where "q = 2 powr (of_int e - 52)"
  define y where "y = of_int (round_half_even (x / q)) * q"
  have qpos: "0 < q" by (simp add: q_def)
  have em: "e \<le> m" using log2_floor_le [OF pos assms(2)] assms(3) by (simp add: e_def)
  then obtain k :: nat where k: "m - e + 52 = int k"
    by (metis add_nonneg_nonneg diff_ge_0_iff_ge nonneg_int_cases zero_le_numeral)
  have "2 powr of_int m = 2 powr (of_int (m - e + 52)) * q"
    unfolding q_def by (simp add: powr_add [symmetric])
  also have "2 powr (of_int (m - e + 52)) = (2::real) ^ k"
    unfolding k by (simp add: powr_realpow)
  finally have m: "2 powr of_int m = 2 ^ k * q" .
  from assms(2) have "x / q \<le> 2 ^ k" using qpos by (simp add: m pos_divide_le_eq)
  then have "x / q \<le> of_int (2 ^ k)" by simp
  then have "round_half_even (x / q) \<le> 2 ^ k" by (rule round_half_even_le)
  then have "of_int (round_half_even (x / q)) \<le> (2::real) ^ k"
    by (metis of_int_le_iff of_int_numeral of_int_power)
  then have yle: "y \<le> 2 powr of_int m" using qpos by (simp add: y_def m)
  have "0 \<le> x / q" using pos qpos by simp
  then have "of_int 0 \<le> x / q" by simp
  then have "0 \<le> round_half_even (x / q)" by (rule round_half_even_ge)
  then have y0: "0 \<le> y" using qpos by (simp add: y_def)
  have "(2::real) powr of_int m < 2 powr 1024"
    using assms(4) by (intro powr_less_mono) auto
  with yle have "\<not> 2 powr 1024 \<le> y" by simp
  then have "round_magnitude x = Finite y"
    using False by (simp add: round_magnitude_def Let_def e_def [symmetric] q_def [symmetric] y_def [symmetric])
  with y0 yle show ?thesis by blast
qed

lemma round_magnitude_ge:
  assumes "2 powr of_int m \<le> x" and "- 1022 \<le> m"
  shows "round_magnitude x = PosInf \<or>
         (\<exists>y. round_magnitude x = Finite y \<and> 2 powr of_int m \<le> y)"
proof -
  have "0 < (2::real) powr of_int m" by simp
  with assms(1) have pos: "0 < x" by linarith
  define e where "e = max \<lfloor>log 2 x\<rfloor> (- 1022)"
  define q :: real where "q = 2 powr (of_int e - 52)"
  define y where "y = of_int (round_half_even (x / q)) * q"
  have qpos: "0 < q" by (simp add: q_def)
  have fl: "m \<le> \<lfloor>log 2 x\<rfloor>" by (rule log2_floor_ge [OF assms(1)])
  with assms(2) have e: "e = \<lfloor>log 2 x\<rfloor>" by (simp add: e_def)
  with fl have me: "m \<le> e" by simp
  have "2 powr of_int e \<le> x"
    using e pos floor_log_eq_powr_iff [of x 2 e] by simp
  moreover have "2 powr of_int e = 2 ^ 52 * q"
    unfolding q_def by (simp add: powr_diff)
  ultimately have "2 ^ 52 \<le> x / q" using qpos by (simp add: pos_le_divide_eq)
  then have "of_int (2 ^ 52) \<le> x / q" by simp
  then have "2 ^ 52 \<le> round_half_even (x / q)" by (rule round_half_even_ge)
  then have "(2::real) ^ 52 \<le> of_int (round_half_even (x / q))"
    by (metis of_int_le_iff of_int_numeral of_int_power)
  then have "2 ^ 52 * q \<le> y" using qpos by (simp add: y_def)
  then have "2 powr of_int e \<le> y" by (simp add: \<open>2 powr of_int e = 2 ^ 52 * q\<close>)
  moreover have "(2::real) powr of_int m \<le> 2 powr of_int e"
    using me by (intro powr_mono) auto
  ultimately have yge: "2 powr of_int m \<le> y" by linarith
  have "round_magnitude x = (if 2 powr 1024 \<le> y then PosInf else Finite y)"
    using pos by (simp add: round_magnitude_def Let_def e_def [symmetric] q_def [symmetric] y_def [symmetric])
  with yge show ?thesis by auto
qed


text \<open>The computed distance depends on the magnitude of the difference only, and it does not
  cross a power of two either: two keys whose distances a power of two separates are ordered
  as their exact distances are.\<close>

lemma linalg_norm_single: "linalg_norm [d] = fl_sqrt (fl_square d)"
  by (simp add: linalg_norm_def)

lemma fl_square_neg: "fl_square (fl_neg d) = fl_square d"
  by (cases d) simp_all

lemma round_double_abs:
  "round_double x = round_magnitude \<bar>x\<bar> \<or> round_double x = fl_neg (round_magnitude \<bar>x\<bar>)"
  by (simp add: round_double_def abs_if)

lemma fl_square_round_double: "fl_square (round_double x) = fl_square (round_magnitude \<bar>x\<bar>)"
  using round_double_abs [of x] by (auto simp add: fl_square_neg)

lemma computed_distance_abs:
  "linalg_norm [fl_subtract p q] = fl_sqrt (fl_square (round_magnitude \<bar>p - q\<bar>))"
  by (simp add: linalg_norm_single fl_subtract_def fl_square_round_double)

lemma round_double_nonneg: "0 \<le> x \<Longrightarrow> round_double x = round_magnitude x"
  by (simp add: round_double_def)

lemma powr_int_square: "(2 powr of_int m) * (2 powr of_int m) = (2::real) powr of_int (2 * m)"
  by (simp add: powr_add [symmetric])

lemma sqrt_powr_int: "sqrt (2 powr of_int (2 * m)) = (2::real) powr of_int m"
proof -
  have "sqrt (2 powr of_int (2 * m)) = sqrt ((2 powr of_int m) * (2 powr of_int m))"
    by (simp only: powr_int_square)
  then show ?thesis by simp
qed

lemma computed_distance_le:
  assumes "\<bar>p - q\<bar> \<le> 2 powr of_int m" and "- 511 \<le> m" and "m \<le> 511"
  shows "\<exists>y. linalg_norm [fl_subtract p q] = Finite y \<and> 0 \<le> y \<and> y \<le> 2 powr of_int m"
proof -
  from round_magnitude_le [of "\<bar>p - q\<bar>" m] assms obtain y1 where
    y1: "round_magnitude \<bar>p - q\<bar> = Finite y1" "0 \<le> y1" "y1 \<le> 2 powr of_int m"
    by auto
  have "y1 * y1 \<le> (2 powr of_int m) * (2 powr of_int m)"
    using y1 by (intro mult_mono) auto
  then have "y1 * y1 \<le> 2 powr of_int (2 * m)" by (simp only: powr_int_square)
  from round_magnitude_le [OF _ this] assms(2,3) obtain y2 where
    y2: "round_magnitude (y1 * y1) = Finite y2" "0 \<le> y2" "y2 \<le> 2 powr of_int (2 * m)"
    by auto
  from y2(3) have "sqrt y2 \<le> sqrt (2 powr of_int (2 * m))" by simp
  then have "sqrt y2 \<le> 2 powr of_int m" by (simp only: sqrt_powr_int)
  from round_magnitude_le [OF _ this] y2(2) assms(2,3) obtain y3 where
    y3: "round_magnitude (sqrt y2) = Finite y3" "0 \<le> y3" "y3 \<le> 2 powr of_int m"
    by auto
  have "linalg_norm [fl_subtract p q] = Finite y3"
    using y1 y2 y3 by (simp add: computed_distance_abs round_double_nonneg)
  with y3 show ?thesis by blast
qed

lemma computed_distance_ge:
  assumes "2 powr of_int m \<le> \<bar>p - q\<bar>" and "- 511 \<le> m"
  shows "linalg_norm [fl_subtract p q] = PosInf \<or>
         (\<exists>y. linalg_norm [fl_subtract p q] = Finite y \<and> 2 powr of_int m \<le> y)"
proof -
  from round_magnitude_ge [OF assms(1)] assms(2)
  consider "round_magnitude \<bar>p - q\<bar> = PosInf"
    | y1 where "round_magnitude \<bar>p - q\<bar> = Finite y1" "2 powr of_int m \<le> y1"
    by auto
  then show ?thesis
  proof cases
    case 1
    then show ?thesis by (simp add: computed_distance_abs)
  next
    case 2
    have m0: "0 \<le> (2::real) powr of_int m" by simp
    with 2(2) have y10: "0 \<le> y1" by linarith
    have "(2 powr of_int m) * (2 powr of_int m) \<le> y1 * y1"
      using 2(2) m0 y10 by (intro mult_mono) auto
    then have sq: "2 powr of_int (2 * m) \<le> y1 * y1" by (simp only: powr_int_square)
    from round_magnitude_ge [OF sq] assms(2)
    consider "round_magnitude (y1 * y1) = PosInf"
      | y2 where "round_magnitude (y1 * y1) = Finite y2" "2 powr of_int (2 * m) \<le> y2"
      by auto
    then show ?thesis
    proof cases
      case 1
      with 2(1) show ?thesis by (simp add: computed_distance_abs round_double_nonneg)
    next
      case b: 2
      have "0 \<le> (2::real) powr of_int (2 * m)" by simp
      with b(2) have y20: "0 \<le> y2" by linarith
      from b(2) have "sqrt (2 powr of_int (2 * m)) \<le> sqrt y2" by simp
      then have "2 powr of_int m \<le> sqrt y2" by (simp only: sqrt_powr_int)
      from round_magnitude_ge [OF this assms(2) [THEN order_trans [rotated]]]
      have "round_magnitude (sqrt y2) = PosInf \<or>
            (\<exists>y. round_magnitude (sqrt y2) = Finite y \<and> 2 powr of_int m \<le> y)"
        by simp
      moreover have "linalg_norm [fl_subtract p q] = round_magnitude (sqrt y2)"
        using 2(1) b(1) y20 by (simp add: computed_distance_abs round_double_nonneg)
      ultimately show ?thesis by simp
    qed
  qed
qed

lemma computed_distance_separated:
  assumes "\<bar>p - q1\<bar> \<le> 2 powr of_int m" and "2 powr of_int m' \<le> \<bar>p - q2\<bar>"
      and "m < m'" and "- 511 \<le> m" and "m \<le> 511"
  shows "double_le (linalg_norm [fl_subtract p q1]) (linalg_norm [fl_subtract p q2]) \<and>
         \<not> double_le (linalg_norm [fl_subtract p q2]) (linalg_norm [fl_subtract p q1])"
proof -
  from computed_distance_le [OF assms(1,4,5)] obtain y where
    y: "linalg_norm [fl_subtract p q1] = Finite y" "y \<le> 2 powr of_int m"
    by blast
  have lt: "(2::real) powr of_int m < 2 powr of_int m'"
    using assms(3) by (intro powr_less_mono) auto
  from assms(3,4) have "- 511 \<le> m'" by simp
  from computed_distance_ge [OF assms(2) this]
  show ?thesis
  proof
    assume "linalg_norm [fl_subtract p q2] = PosInf"
    with y show ?thesis by simp
  next
    assume "\<exists>y'. linalg_norm [fl_subtract p q2] = Finite y' \<and> 2 powr of_int m' \<le> y'"
    then obtain y' where y': "linalg_norm [fl_subtract p q2] = Finite y'" "2 powr of_int m' \<le> y'"
      by blast
    from y(2) lt y'(2) have "y < y'" by linarith
    with y(1) y'(1) show ?thesis by simp
  qed
qed

text \<open>The rounding of a number whose binary exponent is known.\<close>

lemma round_magnitude_eval:
  assumes "2 powr of_int k \<le> x" and "x < 2 powr (of_int k + 1)" and "- 1022 \<le> k"
  shows "round_magnitude x =
           (let q = 2 powr (of_int k - 52);
                y = of_int (round_half_even (x / q)) * q
            in if 2 powr 1024 \<le> y then PosInf else Finite y)"
proof -
  have "0 < (2::real) powr of_int k" by simp
  with assms(1) have pos: "0 < x" by linarith
  with assms have "\<lfloor>log 2 x\<rfloor> = k" by (simp add: floor_log_eq_powr_iff)
  with assms(3) pos show ?thesis by (simp add: round_magnitude_def Let_def)
qed

lemma round_1e16: "round_magnitude (10 ^ 16) = Finite (10 ^ 16)"
  using round_magnitude_eval [of 53 "10 ^ 16"]
  by (simp add: round_half_even_def Let_def)

lemma round_1e16_minus_1: "round_magnitude (10 ^ 16 - 1) = Finite (10 ^ 16)"
  using round_magnitude_eval [of 53 "10 ^ 16 - 1"]
  by (simp add: round_half_even_def Let_def)

subsection \<open>Construction\<close>

text \<open>
  Claim C1, as amended. The window checks of the constructor are made only when an
  extrapolator is supplied. With an extrapolator \<open>e\<close> and an explicit \<open>num_bootstrap = k\<close>:
  if \<open>k < 2\<close> the constructor raises \<^verbatim>\<open>QiskitNatureError\<close>, and if \<open>k \<ge> 2\<close> and \<open>e\<close> is not a
  \<^verbatim>\<open>WindowExtrapolator\<close> it raises \<^verbatim>\<open>QiskitNatureError\<close> too; both failures happen in the
  constructor, which takes no problem. With \<open>k \<ge> 2\<close> and no extrapolator the constructor
  succeeds, keeps the value as given and leaves the store unchanged.
\<close>

theorem init_window_checks:
  "(k < 2 \<longrightarrow> init gss tol b (Some k) (Some e) qc h = Inl QiskitNatureError) \<and>
   (2 \<le> k \<and> \<not> is_WindowExtrapolator (extrapolators h e) \<longrightarrow>
      init gss tol b (Some k) (Some e) qc h = Inl QiskitNatureError) \<and>
   (2 \<le> k \<longrightarrow>
      (\<exists>s. init gss tol b (Some k) None qc h = Inr s \<and> self_num_bootstrap s = Some k \<and>
           heap s = h))"
  by (cases gss) (simp_all add: init_def Let_def)

theorem init_window_checks_witness:
  "(1::int) < 2 \<and>
   init (GroundStateSolver 0 example_solve) 0.001 True (Some 1) (Some 0) None example_store
     = Inl QiskitNatureError \<and>
   (2::int) \<le> 3 \<and> \<not> is_WindowExtrapolator (extrapolators example_store 1) \<and>
   init (GroundStateSolver 0 example_solve) 0.001 True (Some 3) (Some 1) None example_store
     = Inl QiskitNatureError \<and>
   (\<exists>s. init (GroundStateSolver 0 example_solve) 0.001 True (Some 3) None None example_store
          = Inr s \<and> self_num_bootstrap s = Some 3)"
  using init_window_checks [of 1 "GroundStateSolver 0 example_solve" "0.001" True 0 None example_store]
        init_window_checks [of 3 "GroundStateSolver 0 example_solve" "0.001" True 1 None example_store]
  by (auto simp add: example_store_def plain_extrapolator_def)

text \<open>The claim as stated fails: with \<open>num_bootstrap = 3\<close> and no extrapolator the
  constructor returns a sampler.\<close>

theorem init_without_extrapolator_accepts_window:
  "init (GroundStateSolver 0 example_solve) 0.001 True (Some 3) None None example_store
     \<noteq> Inl QiskitNatureError \<and>
   (\<exists>s. init (GroundStateSolver 0 example_solve) 0.001 True (Some 3) None None example_store
          = Inr s)"
  by (simp add: init_def Let_def solver_is_variational_def)

text \<open>
  Claim C10. Constructed with a \<^verbatim>\<open>WindowExtrapolator\<close> \<open>e\<close> and an explicit
  \<open>num_bootstrap = k \<ge> 2\<close>, the sampler sets the \<open>window\<close> of the caller's extrapolator object
  to \<open>k\<close> in the store, where the caller sees it after the construction; nothing else of the
  extrapolators changes. With \<open>num_bootstrap = None\<close> the extrapolators are left as they were
  and the sampler's own window is 2.
\<close>

theorem init_sets_extrapolator_window:
  "(2 \<le> k \<and> is_WindowExtrapolator (extrapolators h e) \<longrightarrow>
      (\<exists>s. init gss tol b (Some k) (Some e) qc h = Inr s \<and>
           self_extrapolator s = Some e \<and>
           self_num_bootstrap s = Some k \<and>
           window (extrapolators (heap s) e) = k \<and>
           extrapolators (heap s) = (extrapolators h)(e := (extrapolators h e)\<lparr>window := k\<rparr>))) \<and>
   (\<exists>s. init gss tol b None (Some e) qc h = Inr s \<and>
        self_extrapolator s = Some e \<and>
        self_num_bootstrap s = Some 2 \<and>
        extrapolators (heap s) = extrapolators h)"
  by (cases gss) (simp_all add: init_def Let_def set_window_def solver_is_variational_def)

theorem init_sets_extrapolator_window_witness:
  "(2::int) \<le> 3 \<and> is_WindowExtrapolator (extrapolators example_store 0) \<and>
   window (extrapolators example_store 0) = 5 \<and>
   (\<exists>s. init (GroundStateSolver 0 example_solve) 0.001 True (Some 3) (Some 0) None example_store
          = Inr s \<and> window (extrapolators (heap s) 0) = 3)"
  using init_sets_extrapolator_window
          [of 3 example_store 0 "GroundStateSolver 0 example_solve" "0.001" True None]
  by (auto simp add: example_store_def window_extrapolator_def)

subsection \<open>The problem adapter\<close>

text \<open>
  Claim C9, as amended. When \<^verbatim>\<open>second_q_ops()\<close> yields a mapping, \<^verbatim>\<open>prepare_problem\<close> fails
  with \<^verbatim>\<open>ValueError\<close> whenever the entry keyed by the problem's main property name is absent
  or maps to \<^verbatim>\<open>None\<close>, and otherwise converts that entry; in every case the mapping is left
  without the main entry.
\<close>

theorem prepare_problem_mapping:
  assumes "second_q_ops p (problem_driver p) = OpsDict d"
  shows "(map_of d (main_property_name p) = None \<or> map_of d (main_property_name p) = Some None
            \<longrightarrow> snd (prepare_problem p qc) = Inl ValueError) \<and>
         (\<forall>op. map_of d (main_property_name p) = Some (Some op)
            \<longrightarrow> snd (prepare_problem p qc) = Inr (convert qc op (num_particles p))) \<and>
         fst (prepare_problem p qc) = OpsDict (filter (\<lambda>kv. fst kv \<noteq> main_property_name p) d) \<and>
         map_of (filter (\<lambda>kv. fst kv \<noteq> main_property_name p) d) (main_property_name p) = None"
  using assms
  by (auto simp add: prepare_problem_def main_second_q_op_def dict_pop_def Let_def
           map_of_filter_key split: option.splits)

theorem prepare_problem_mapping_witness:
  "second_q_ops bad_problem (problem_driver bad_problem)
     = OpsDict [(''ParticleNumber'', Some (SecondQuantizedOp ''N''))] \<and>
   snd (prepare_problem bad_problem example_converter) = Inl ValueError \<and>
   fst (prepare_problem bad_problem example_converter)
     = OpsDict [(''ParticleNumber'', Some (SecondQuantizedOp ''N''))]"
proof -
  have h: "second_q_ops bad_problem (problem_driver bad_problem)
     = OpsDict [(''ParticleNumber'', Some (SecondQuantizedOp ''N''))]"
    by (simp add: bad_problem_def)
  show ?thesis
    using h prepare_problem_mapping [OF h, of example_converter]
    by (simp add: bad_problem_def example_problem_def)
qed

text \<open>The claim as stated fails in the kind of the error: on a mapping without the main
  entry the function raises \<^verbatim>\<open>ValueError\<close>, not \<^verbatim>\<open>QiskitNatureError\<close>.\<close>

theorem prepare_problem_missing_main_is_not_configuration_error:
  "snd (prepare_problem bad_problem example_converter) = Inl ValueError \<and>
   snd (prepare_problem bad_problem example_converter) \<noteq> Inl QiskitNatureError"
  by (simp add: prepare_problem_def main_second_q_op_def bad_problem_def example_problem_def
        dict_pop_def)

subsection \<open>The warm start\<close>

lemma example_sampler_init:
  "init (GroundStateSolver 0 example_solve) 0.001 True None None None example_store = Inr example_sampler"
  by (simp add: init_def Let_def solver_is_variational_def example_sampler_def example_store_def vqe_def)

lemma example_window_sampler_init:
  "init (GroundStateSolver 0 example_solve) 0.001 True (Some 2) (Some 0) None example_store
     = Inr (example_window_sampler\<lparr>self_problem := None\<rparr>)"
  by (simp add: init_def Let_def solver_is_variational_def example_sampler_def example_window_sampler_def
        example_store_def vqe_def window_extrapolator_def set_window_def)

lemma argmin_less: "xs \<noteq> [] \<Longrightarrow> argmin xs < length xs"
  by (induction xs rule: argmin.induct) (auto simp add: Let_def)

lemma argmin_le: "j < length xs \<Longrightarrow> double_le (xs ! argmin xs) (xs ! j)"
proof (induction xs arbitrary: j rule: argmin.induct)
  case 1
  then show ?case by simp
next
  case (2 x)
  then show ?case by simp
next
  case (3 x y ys)
  let ?m = "(y # ys) ! argmin (y # ys)"
  show ?case
  proof (cases j)
    case 0
    then show ?thesis using double_le_total [of x ?m] by (auto simp add: Let_def)
  next
    case (Suc j')
    with "3.prems" have "j' < length (y # ys)" by simp
    from "3.IH" [OF this] have "double_le ?m ((y # ys) ! j')" .
    with Suc show ?thesis by (auto simp add: Let_def intro: double_le_trans)
  qed
qed

lemma argmin_first: "j < argmin xs \<Longrightarrow> \<not> double_le (xs ! j) (xs ! argmin xs)"
proof (induction xs arbitrary: j rule: argmin.induct)
  case 1
  then show ?case by simp
next
  case (2 x)
  then show ?case by simp
next
  case (3 x y ys)
  show ?case
  proof (cases "double_le x ((y # ys) ! argmin (y # ys))")
    case True
    with "3.prems" show ?thesis by (simp add: Let_def)
  next
    case False
    show ?thesis
    proof (cases j)
      case 0
      with False show ?thesis by (simp add: Let_def)
    next
      case (Suc j')
      with "3.prems" False have "j' < argmin (y # ys)" by (simp add: Let_def)
      from "3.IH" [OF this] Suc False show ?thesis by (simp add: Let_def)
    qed
  qed
qed

lemma nearest_by_computed_distance_argmin:
  assumes "history \<noteq> []"
  shows "nearest_by_computed_distance point history =
           Some (dict_values history !
                   argmin (map linalg_norm
                             (map (\<lambda>q. [fl_subtract point q]) (dict_keys history))))"
proof -
  let ?ds = "map linalg_norm (map (\<lambda>q. [fl_subtract point q]) (dict_keys history))"
  let ?i = "argmin ?ds"
  let ?P = "\<lambda>kv. \<forall>kv' \<in> set history.
              double_le (computed_distance point (fst kv)) (computed_distance point (fst kv'))"
  have len: "length ?ds = length history" by (simp add: dict_keys_def)
  have nth: "\<And>j. j < length history \<Longrightarrow> ?ds ! j = computed_distance point (fst (history ! j))"
    by (simp add: dict_keys_def computed_distance_def)
  have ne: "?ds \<noteq> []" using assms by (simp add: dict_keys_def)
  have i: "?i < length history" using argmin_less [OF ne] len by simp
  have le: "?P (history ! ?i)"
  proof
    fix kv' assume "kv' \<in> set history"
    then obtain j where j: "j < length history" "history ! j = kv'"
      by (auto simp add: in_set_conv_nth)
    from argmin_le [of j ?ds] j len have "double_le (?ds ! ?i) (?ds ! j)" by simp
    with nth [OF i] nth [OF j(1)] j(2)
    show "double_le (computed_distance point (fst (history ! ?i)))
            (computed_distance point (fst kv'))"
      by simp
  qed
  have first: "\<forall>j < ?i. \<not> ?P (history ! j)"
  proof (intro allI impI notI)
    fix j assume j: "j < ?i" and all: "?P (history ! j)"
    from j i have jl: "j < length history" by simp
    from argmin_first [OF j] nth [OF i] nth [OF jl]
    have "\<not> double_le (computed_distance point (fst (history ! j)))
              (computed_distance point (fst (history ! ?i)))"
      by simp
    moreover from all i
    have "double_le (computed_distance point (fst (history ! j)))
            (computed_distance point (fst (history ! ?i)))"
      by simp
    ultimately show False by simp
  qed
  have "find ?P history = Some (history ! ?i)"
    unfolding find_Some_iff using i le first by blast
  then show ?thesis using i by (simp add: nearest_by_computed_distance_def dict_values_def)
qed

lemma computed_distance_separated':
  assumes "\<bar>p - q1\<bar> \<le> 2 powr of_int m" and "2 powr of_int m' \<le> \<bar>p - q2\<bar>"
      and "m < m'" and "- 511 \<le> m" and "m \<le> 511"
  shows "double_le (computed_distance p q1) (computed_distance p q2)"
    and "\<not> double_le (computed_distance p q2) (computed_distance p q1)"
  using computed_distance_separated [OF assms] by (simp_all add: computed_distance_def)

text \<open>
  Claim C3, as amended. When the solver is variational, bootstrapping is enabled, the history
  is not empty and its size does not exceed the window (no extrapolator, or a bootstrap count
  of at least the size), the warm start assigns to the solver's initial point the stored
  parameter vector of the key whose distance from the point, as computed in double precision
  (the rounded root of the rounded square of the rounded difference), is minimal, the first
  such key in insertion order; nothing else of the state changes. For the history
  \<open>{1.0: [a], 3.0: [b]}\<close> the guess for the point 1.4 is \<open>[a]\<close> and for 2.8 it is \<open>[b]\<close>.
\<close>

theorem warm_start_nearest_neighbour:
  assumes "self_solver s = Some a"
      and "is_VariationalAlgorithm (solvers (heap s) a)"
      and "self_bootstrap s"
      and "self_points_optparams s = Some history"
      and "history \<noteq> []"
      and "self_extrapolator s = None \<or>
           (\<exists>w. self_num_bootstrap s = Some w \<and> int (length history) \<le> w)"
  shows "\<exists>guess. nearest_by_computed_distance point history = Some guess \<and>
           warm_start point s = Inr (s\<lparr>heap := set_initial_point a (Some guess) (heap s)\<rparr>) \<and>
           initial_point (solvers (set_initial_point a (Some guess) (heap s)) a) = Some guess"
  using assms nearest_by_computed_distance_argmin [OF assms(5), of point]
  by (auto simp add: warm_start_def Let_def dict_keys_def set_initial_point_def
           split: option.splits)

theorem warm_start_nearest_neighbour_witness:
  "warm_start 1.4 (example_sampler\<lparr>self_points_optparams := Some [(1.0, [0.1]), (3.0, [0.2])]\<rparr>)
     = Inr (example_sampler\<lparr>self_points_optparams := Some [(1.0, [0.1]), (3.0, [0.2])],
                            heap := set_initial_point 0 (Some [0.1]) example_store\<rparr>) \<and>
   warm_start 2.8 (example_sampler\<lparr>self_points_optparams := Some [(1.0, [0.1]), (3.0, [0.2])]\<rparr>)
     = Inr (example_sampler\<lparr>self_points_optparams := Some [(1.0, [0.1]), (3.0, [0.2])],
                            heap := set_initial_point 0 (Some [0.2]) example_store\<rparr>)"
proof -
  let ?h = "[(1.0, [0.1]), (3.0, [0.2])] :: (real \<times> params) list"
  let ?s = "example_sampler\<lparr>self_points_optparams := Some ?h\<rparr>"
  have pre: "self_solver ?s = Some 0" "is_VariationalAlgorithm (solvers (heap ?s) 0)"
    "self_bootstrap ?s" "self_points_optparams ?s = Some ?h" "?h \<noteq> []"
    "self_extrapolator ?s = None \<or>
       (\<exists>w. self_num_bootstrap ?s = Some w \<and> int (length ?h) \<le> w)"
    by (simp_all add: example_sampler_def example_store_def vqe_def)
  have near: "double_le (computed_distance 1.4 1) (computed_distance 1.4 3)"
    by (rule computed_distance_separated' (1) [where m = "- 1" and m' = 0]) simp_all
  have far: "\<not> double_le (computed_distance 2.8 1) (computed_distance 2.8 3)"
    by (rule computed_distance_separated' (2) [where m = "- 1" and m' = 0]) simp_all
  have near': "double_le (computed_distance 2.8 3) (computed_distance 2.8 1)"
    by (rule computed_distance_separated' (1) [where m = "- 1" and m' = 0]) simp_all
  have n1: "nearest_by_computed_distance 1.4 ?h = Some [0.1]"
    using near by (simp add: nearest_by_computed_distance_def)
  have n2: "nearest_by_computed_distance 2.8 ?h = Some [0.2]"
    using far near' by (simp add: nearest_by_computed_distance_def)
  from warm_start_nearest_neighbour [OF pre, of "1.4"] n1
       warm_start_nearest_neighbour [OF pre, of "2.8"] n2
  show ?thesis by (simp add: example_sampler_def)
qed

text \<open>The claim as stated fails where rounding makes the computed distances tie. For the
  history \<open>{0.0: [a], 1.0: [b]}\<close> and the point \<open>10\<^sup>1\<^sup>6\<close> the key 1.0 is the nearer one, but both
  differences round to \<open>10\<^sup>1\<^sup>6\<close> and the warm start takes the first key.\<close>

theorem warm_start_rounding_tie:
  "warm_start (10 ^ 16)
       (example_sampler\<lparr>self_points_optparams := Some [(0, [0.1]), (1, [0.2])]\<rparr>)
     = Inr (example_sampler\<lparr>self_points_optparams := Some [(0, [0.1]), (1, [0.2])],
                            heap := set_initial_point 0 (Some [0.1]) example_store\<rparr>) \<and>
   nearest_neighbour (10 ^ 16) [(0, [0.1]), (1, [0.2])] = Some [0.2]"
proof -
  have "fl_subtract (10 ^ 16) 0 = Finite (10 ^ 16)"
    using round_1e16 by (simp add: fl_subtract_def round_double_def)
  moreover have "fl_subtract (10 ^ 16) 1 = Finite (10 ^ 16)"
    using round_1e16_minus_1 by (simp add: fl_subtract_def round_double_def)
  ultimately show ?thesis
    by (simp add: warm_start_def Let_def dict_keys_def dict_values_def set_initial_point_def
          nearest_neighbour_def example_sampler_def example_store_def vqe_def)
qed

text \<open>The definitions that a concrete run unfolds.\<close>

lemmas sampler_defs =
  run_points_def reset_history_def set_initial_point_def set_window_def
  run_single_point_def set_geometry_def check_driver_def warm_start_def solve_def
  save_optimal_point_def solver_is_variational_def force_solver_def prepare_problem_def
  main_second_q_op_def
  dict_keys_def dict_values_def dict_get_def Let_def

lemmas example_defs =
  example_window_sampler_def example_sampler_def example_store_def vqe_def numpy_solver_def
  example_problem_def example_solve_def example_compute_def example_converter_def
  window_extrapolator_def plain_extrapolator_def example_extrapolate_def






subsection \<open>Dictionaries and the loop over the points\<close>

lemma dict_keys_setitem:
  "dict_keys (dict_setitem k v d) =
     (if k \<in> set (dict_keys d) then dict_keys d else dict_keys d @ [k])"
  by (induction d) (force simp add: dict_keys_def)+

lemma dict_get_setitem:
  "dict_get (dict_setitem k v d) k' = (if k' = k then Some v else dict_get d k')"
  by (induction d) (auto simp add: dict_get_def)

lemma distinct_setitem:
  "distinct (dict_keys d) \<Longrightarrow> distinct (dict_keys (dict_setitem k v d))"
  by (simp add: dict_keys_setitem)

lemma set_first_occurrences: "set (first_occurrences xs) = set xs"
  by (induction xs) auto

lemma distinct_first_occurrences: "distinct (first_occurrences xs)"
  by (induction xs) (auto simp add: set_first_occurrences)

lemma dict_get_nth:
  assumes "distinct (dict_keys d)" and "i < length d"
  shows "dict_get d (dict_keys d ! i) = Some (dict_values d ! i)"
proof -
  from assms(2) have "(fst (d ! i), snd (d ! i)) \<in> set d" by simp
  with assms show ?thesis by (simp add: dict_get_def dict_keys_def dict_values_def)
qed

lemma run_loop_append:
  "run_loop (xs @ ys) raw s =
     (case run_loop xs raw s of
        Inl err \<Rightarrow> Inl err
      | Inr (raw1, s1) \<Rightarrow> run_loop ys raw1 s1)"
  by (induction xs arbitrary: raw s) (auto split: sum.splits)

lemma run_loop_keys:
  "run_loop points raw s = Inr (raw', s') \<Longrightarrow>
     dict_keys raw' =
       dict_keys raw @ filter (\<lambda>p. p \<notin> set (dict_keys raw)) (first_occurrences points)"
proof (induction points arbitrary: raw s)
  case Nil
  then show ?case by simp
next
  case (Cons p ps)
  from Cons.prems obtain r s1 where
    step: "run_single_point p s = Inr (r, s1)" and
    rest: "run_loop ps (dict_setitem p r raw) s1 = Inr (raw', s')"
    by (auto split: sum.splits)
  have eq: "filter (\<lambda>q. q \<notin> set (dict_keys raw)) (filter (\<lambda>y. y \<noteq> p) (first_occurrences ps))
        = filter (\<lambda>q. q \<noteq> p \<and> q \<notin> set (dict_keys raw)) (first_occurrences ps)"
    by (simp add: conj_commute)
  show ?case
  proof (cases "p \<in> set (dict_keys raw)")
    case True
    have "filter (\<lambda>q. q \<noteq> p \<and> q \<notin> set (dict_keys raw)) (first_occurrences ps)
            = filter (\<lambda>q. q \<notin> set (dict_keys raw)) (first_occurrences ps)"
      using True by (intro filter_cong) auto
    with Cons.IH [OF rest] True eq show ?thesis by (simp add: dict_keys_setitem)
  next
    case False
    with Cons.IH [OF rest] eq show ?thesis by (simp add: dict_keys_setitem)
  qed
qed

lemma run_loop_get_other:
  "run_loop points raw s = Inr (raw', s') \<Longrightarrow> p \<notin> set points \<Longrightarrow>
     dict_get raw' p = dict_get raw p"
proof (induction points arbitrary: raw s)
  case Nil
  then show ?case by simp
next
  case (Cons q qs)
  from Cons.prems(1) obtain r s1 where
    rest: "run_loop qs (dict_setitem q r raw) s1 = Inr (raw', s')"
    by (auto split: sum.splits)
  from Cons.IH [OF rest] Cons.prems(2) show ?case by (simp add: dict_get_setitem)
qed

lemma first_energies_nth:
  "first_energies rs = Inr es \<Longrightarrow>
     length es = length rs \<and>
     (\<forall>i < length rs. \<exists>e rest. total_energies (rs ! i) = e # rest \<and> es ! i = e)"
proof (induction rs arbitrary: es)
  case Nil
  then show ?case by simp
next
  case (Cons r rs)
  from Cons.prems obtain e rest es' where
    e: "total_energies r = e # rest" and
    es': "first_energies rs = Inr es'" and
    es: "es = e # es'"
    by (auto split: list.splits sum.splits)
  from Cons.IH [OF es'] e es show ?case by (auto simp add: nth_Cons split: nat.splits)
qed

subsection \<open>The result of a sweep\<close>

text \<open>
  Claim C5. When \<^verbatim>\<open>sample\<close> returns, the points of the result are the keys of the raw result
  map in their order, which is the order of the first occurrences of the points in the list
  given (not sorted); there are as many energies as points, and the energy at index \<open>i\<close> is
  the first of the total energies of the raw result stored for the point at index \<open>i\<close>.
\<close>

theorem sample_order:
  assumes "sample p points s = Inr (res, s')"
  shows "result_points res = dict_keys (result_raw_results res) \<and>
         result_points res = first_occurrences points \<and>
         length (result_energies res) = length (result_points res) \<and>
         (\<forall>i < length (result_points res).
            \<exists>r e rest. dict_get (result_raw_results res) (result_points res ! i) = Some r \<and>
                       total_energies r = e # rest \<and>
                       result_energies res ! i = e)"
proof -
  from assms obtain s2 raw s3 energies where
    run: "run_points points s2 = Inr (raw, s3)" and
    en: "first_energies (dict_values raw) = Inr energies" and
    res: "res = \<lparr> result_points = dict_keys raw, result_energies = energies,
                  result_raw_results = raw \<rparr>"
    by (auto simp add: sample_def Let_def split: sum.splits option.splits)
  from run have keys: "dict_keys raw = first_occurrences points"
    using run_loop_keys [of points "[]" "reset_history s2" raw s3]
    by (simp add: run_points_def dict_keys_def)
  then have dist: "distinct (dict_keys raw)" by (simp add: distinct_first_occurrences)
  have len: "length (dict_keys raw) = length raw" "length (dict_values raw) = length raw"
    by (simp_all add: dict_keys_def dict_values_def)
  from first_energies_nth [OF en] len
  have el: "length energies = length raw"
    and ev: "\<And>i. i < length raw \<Longrightarrow>
               \<exists>e rest. total_energies (dict_values raw ! i) = e # rest \<and> energies ! i = e"
    by auto
  have "\<forall>i < length (dict_keys raw).
          \<exists>r e rest. dict_get raw (dict_keys raw ! i) = Some r \<and> total_energies r = e # rest \<and>
                     energies ! i = e"
  proof (intro allI impI)
    fix i assume "i < length (dict_keys raw)"
    with len have i: "i < length raw" by simp
    from dict_get_nth [OF dist i] ev [OF i]
    show "\<exists>r e rest. dict_get raw (dict_keys raw ! i) = Some r \<and> total_energies r = e # rest \<and>
                     energies ! i = e"
      by auto
  qed
  with res keys el len show ?thesis by simp
qed

text \<open>The point 0.6 is at the same computed distance from 0.5 and from 0.7.\<close>

lemma example_distance_tie:
  "double_le (linalg_norm [fl_subtract 0.6 0.5]) (linalg_norm [fl_subtract 0.6 0.7])"
  by (simp add: computed_distance_abs)

lemma example_sample_unsorted:
  "\<exists>res s'. sample example_problem [0.5, 0.7, 0.6] example_sampler = Inr (res, s') \<and>
     result_energies res = [0.5, 1.2, 1.1]"
  using example_distance_tie
  by (simp add: sample_def first_energies.simps sampler_defs example_defs)

theorem sample_order_witness:
  "\<exists>res s'. sample example_problem [0.5, 0.7, 0.6] example_sampler = Inr (res, s') \<and>
     result_points res = [0.5, 0.7, 0.6] \<and> result_energies res = [0.5, 1.2, 1.1] \<and>
     (\<forall>i < 3. \<exists>r e rest. dict_get (result_raw_results res) ([0.5, 0.7, 0.6] ! i) = Some r \<and>
                          total_energies r = e # rest \<and> [0.5, 1.2, 1.1] ! i = e)"
proof -
  from example_sample_unsorted obtain res s' where
    r: "sample example_problem [0.5, 0.7, 0.6] example_sampler = Inr (res, s')" and
    e: "result_energies res = [0.5, 1.2, 1.1]"
    by blast
  from sample_order [OF r]
  have p: "result_points res = first_occurrences [0.5, 0.7, 0.6]"
    and a: "\<forall>i < length (result_points res).
              \<exists>r e rest. dict_get (result_raw_results res) (result_points res ! i) = Some r \<and>
                         total_energies r = e # rest \<and> result_energies res ! i = e"
    by blast+
  from p have p': "result_points res = [0.5, 0.7, 0.6]" by simp
  from a have "\<forall>i < 3. \<exists>r e rest. dict_get (result_raw_results res) ([0.5, 0.7, 0.6] ! i) = Some r \<and>
                          total_energies r = e # rest \<and> [0.5, 1.2, 1.1] ! i = e"
    unfolding p' e by simp
  with p' have "result_points res = [0.5, 0.7, 0.6] \<and>
     (\<forall>i < 3. \<exists>r e rest. dict_get (result_raw_results res) ([0.5, 0.7, 0.6] ! i) = Some r \<and>
                          total_energies r = e # rest \<and> [0.5, 1.2, 1.1] ! i = e)"
    by blast
  with r e show ?thesis by blast
qed

subsection \<open>The point history along a sweep\<close>

lemma set_geometry_history:
  "set_geometry q s = Inr s1 \<Longrightarrow> self_points_optparams s1 = self_points_optparams s"
  by (auto simp add: set_geometry_def split: option.splits sum.splits)

lemma warm_start_history:
  "warm_start q s = Inr s1 \<Longrightarrow> self_points_optparams s1 = self_points_optparams s"
  by (auto simp add: warm_start_def Let_def split: option.splits if_splits)

lemma solve_history:
  "solve s = Inr (r, s1) \<Longrightarrow> self_points_optparams s1 = self_points_optparams s"
  by (auto simp add: solve_def Let_def split: option.splits gss_t.splits sum.splits prod.splits)

lemma save_optimal_point_cases:
  assumes "save_optimal_point q r s = Inr s'"
  shows "solver_is_variational s' = solver_is_variational s"
    and "solver_is_variational s \<Longrightarrow>
           \<exists>h. self_points_optparams s = Some h \<and>
               self_points_optparams s' = Some (dict_setitem q (optimal_point (raw_result r)) h)"
    and "\<not> solver_is_variational s \<Longrightarrow> s' = s"
  using assms
  by (auto simp add: save_optimal_point_def solver_is_variational_def
           split: option.splits if_splits)

lemma run_single_point_history:
  assumes "run_single_point q s = Inr (r, s')"
  shows "(solver_is_variational s' \<longrightarrow>
            (\<exists>h. self_points_optparams s = Some h \<and>
                 self_points_optparams s' =
                   Some (dict_setitem q (optimal_point (raw_result r)) h))) \<and>
         (\<not> solver_is_variational s' \<longrightarrow> self_points_optparams s' = self_points_optparams s)"
proof -
  from assms obtain s1 s2 s3 where
    g: "set_geometry q s = Inr s1" and
    w: "warm_start q s1 = Inr s2" and
    v: "solve s2 = Inr (r, s3)" and
    o: "save_optimal_point q r s3 = Inr s'"
    by (auto simp add: run_single_point_def split: sum.splits)
  have h3: "self_points_optparams s3 = self_points_optparams s"
    using set_geometry_history [OF g] warm_start_history [OF w] solve_history [OF v] by simp
  show ?thesis
    using save_optimal_point_cases [OF o] h3 by (cases "solver_is_variational s3") auto
qed

lemma run_single_point_history_step:
  assumes "run_single_point q s = Inr (r, s')" and "self_points_optparams s = Some h"
  shows "\<exists>h'. self_points_optparams s' = Some h' \<and>
              (q \<noteq> p \<longrightarrow> dict_get h' p = dict_get h p) \<and>
              set (dict_keys h') \<subseteq> insert q (set (dict_keys h)) \<and>
              (distinct (dict_keys h) \<longrightarrow> distinct (dict_keys h'))"
  using run_single_point_history [OF assms(1)] assms(2)
  by (cases "solver_is_variational s'")
     (auto simp add: dict_get_setitem dict_keys_setitem split: if_splits)

lemma run_loop_history:
  "run_loop points raw s = Inr (raw', s') \<Longrightarrow> self_points_optparams s = Some h \<Longrightarrow>
     \<exists>h'. self_points_optparams s' = Some h' \<and>
          (p \<notin> set points \<longrightarrow> dict_get h' p = dict_get h p) \<and>
          set (dict_keys h') \<subseteq> set (dict_keys h) \<union> set points \<and>
          (distinct (dict_keys h) \<longrightarrow> distinct (dict_keys h'))"
proof (induction points arbitrary: raw s h)
  case Nil
  then show ?case by simp
next
  case (Cons q qs)
  from Cons.prems(1) obtain r s1 where
    step: "run_single_point q s = Inr (r, s1)" and
    rest: "run_loop qs (dict_setitem q r raw) s1 = Inr (raw', s')"
    by (auto split: sum.splits)
  from run_single_point_history_step [OF step Cons.prems(2), of p] obtain h1 where
    h1: "self_points_optparams s1 = Some h1"
        "q \<noteq> p \<longrightarrow> dict_get h1 p = dict_get h p"
        "set (dict_keys h1) \<subseteq> insert q (set (dict_keys h))"
        "distinct (dict_keys h) \<longrightarrow> distinct (dict_keys h1)"
    by blast
  from Cons.IH [OF rest h1(1)] obtain h' where
    h': "self_points_optparams s' = Some h'"
        "p \<notin> set qs \<longrightarrow> dict_get h' p = dict_get h1 p"
        "set (dict_keys h') \<subseteq> set (dict_keys h1) \<union> set qs"
        "distinct (dict_keys h1) \<longrightarrow> distinct (dict_keys h')"
    by blast
  from h1 h' show ?case by auto
qed

lemma reset_history_variational:
  "solver_is_variational s \<Longrightarrow> self_points_optparams (reset_history s) = Some []"
  by (auto simp add: reset_history_def solver_is_variational_def split: option.splits)

text \<open>
  Claim C7. After a sweep the raw result map has exactly one entry for each distinct point
  of the list; for a point whose last occurrence is at index \<open>i\<close>, the entry is the result of
  the evaluation at index \<open>i\<close>, that is of \<^verbatim>\<open>_run_single_point\<close> in the state reached after the first
  \<open>i\<close> points. When the solver is variational after that evaluation, the point history maps
  the point to the optimal point of that result; when the solver is variational at the start
  of the sweep, the history has distinct keys, all of them points of the sweep.
\<close>

theorem run_points_last_write_wins:
  assumes "run_points points s = Inr (raw_results, s')"
  shows "distinct (dict_keys raw_results) \<and>
         set (dict_keys raw_results) = set points \<and>
         (\<forall>i < length points.
            (\<forall>j. i < j \<and> j < length points \<longrightarrow> points ! j \<noteq> points ! i) \<longrightarrow>
            (\<exists>raw_i s_i r s_i'.
               run_points (take i points) s = Inr (raw_i, s_i) \<and>
               run_single_point (points ! i) s_i = Inr (r, s_i') \<and>
               dict_get raw_results (points ! i) = Some r \<and>
               (solver_is_variational s_i' \<longrightarrow>
                  (\<exists>h. self_points_optparams s' = Some h \<and>
                       dict_get h (points ! i) = Some (optimal_point (raw_result r)))))) \<and>
         (solver_is_variational s \<longrightarrow>
            (\<exists>h. self_points_optparams s' = Some h \<and> distinct (dict_keys h) \<and>
                 set (dict_keys h) \<subseteq> set points))"
proof (intro conjI allI impI)
  from assms have loop: "run_loop points [] (reset_history s) = Inr (raw_results, s')"
    by (simp add: run_points_def)
  from run_loop_keys [OF loop] have keys: "dict_keys raw_results = first_occurrences points"
    by (simp add: dict_keys_def)
  show "distinct (dict_keys raw_results)"
    using keys by (simp add: distinct_first_occurrences)
  show "set (dict_keys raw_results) = set points"
    using keys by (simp add: set_first_occurrences)
  {
    assume "solver_is_variational s"
    then have "self_points_optparams (reset_history s) = Some []"
      by (rule reset_history_variational)
    from run_loop_history [OF loop this, where p = 0]
    show "\<exists>h. self_points_optparams s' = Some h \<and> distinct (dict_keys h) \<and>
              set (dict_keys h) \<subseteq> set points"
      by (auto simp add: dict_keys_def)
  }
  fix i
  assume i: "i < length points"
    and last: "\<forall>j. i < j \<and> j < length points \<longrightarrow> points ! j \<noteq> points ! i"
  let ?p = "points ! i"
  have split: "points = take i points @ [?p] @ drop (Suc i) points"
    using i by (simp add: id_take_nth_drop [symmetric])
  have notin: "?p \<notin> set (drop (Suc i) points)"
  proof
    assume "?p \<in> set (drop (Suc i) points)"
    then obtain k where k: "k < length (drop (Suc i) points)" "drop (Suc i) points ! k = ?p"
      by (auto simp add: in_set_conv_nth)
    then have "Suc i + k < length points" "points ! (Suc i + k) = ?p" by auto
    with last show False by (metis less_add_Suc1 add_Suc)
  qed
  from loop split
  have "run_loop (take i points @ [?p] @ drop (Suc i) points) [] (reset_history s)
          = Inr (raw_results, s')"
    by simp
  then obtain raw_i s_i r s_i' where
    pre: "run_loop (take i points) [] (reset_history s) = Inr (raw_i, s_i)" and
    step: "run_single_point ?p s_i = Inr (r, s_i')" and
    post: "run_loop (drop (Suc i) points) (dict_setitem ?p r raw_i) s_i' = Inr (raw_results, s')"
    unfolding run_loop_append by (auto split: sum.splits)
  from run_loop_get_other [OF post notin]
  have get: "dict_get raw_results ?p = Some r" by (simp add: dict_get_setitem)
  have hist: "solver_is_variational s_i' \<longrightarrow>
                (\<exists>h. self_points_optparams s' = Some h \<and>
                     dict_get h ?p = Some (optimal_point (raw_result r)))"
  proof
    assume "solver_is_variational s_i'"
    with run_single_point_history [OF step] obtain h0 where
      h0: "self_points_optparams s_i' = Some (dict_setitem ?p (optimal_point (raw_result r)) h0)"
      by blast
    from run_loop_history [OF post h0, of ?p] notin
    show "\<exists>h. self_points_optparams s' = Some h \<and>
              dict_get h ?p = Some (optimal_point (raw_result r))"
      by (auto simp add: dict_get_setitem)
  qed
  from pre step get hist
  show "\<exists>raw_i s_i r s_i'.
          run_points (take i points) s = Inr (raw_i, s_i) \<and>
          run_single_point ?p s_i = Inr (r, s_i') \<and>
          dict_get raw_results ?p = Some r \<and>
          (solver_is_variational s_i' \<longrightarrow>
             (\<exists>h. self_points_optparams s' = Some h \<and>
                  dict_get h ?p = Some (optimal_point (raw_result r))))"
    unfolding run_points_def by blast
qed

lemma example_duplicate_sweep:
  "\<exists>raw s'. run_points [1, 1] example_bound_sampler = Inr (raw, s') \<and>
     (\<forall>r. dict_get raw 1 = Some r \<longrightarrow> total_energies r = [2]) \<and>
     self_points_optparams s' = Some [(1, [1])]"
  by (simp add: example_bound_sampler_def sampler_defs example_defs)

lemma example_single_sweep:
  "\<exists>raw s'. run_points [1] example_bound_sampler = Inr (raw, s') \<and>
     (\<forall>r. dict_get raw 1 = Some r \<longrightarrow> total_energies r = [1])"
  by (simp add: example_bound_sampler_def sampler_defs example_defs)

theorem run_points_last_write_wins_witness:
  "\<exists>raw s'. run_points [1, 1] example_bound_sampler = Inr (raw, s') \<and>
     distinct (dict_keys raw) \<and> set (dict_keys raw) = {1} \<and>
     (\<exists>raw_1 s_1 r s_1'.
        run_points [1] example_bound_sampler = Inr (raw_1, s_1) \<and>
        (\<forall>r1. dict_get raw_1 1 = Some r1 \<longrightarrow> total_energies r1 = [1]) \<and>
        run_single_point 1 s_1 = Inr (r, s_1') \<and>
        dict_get raw 1 = Some r \<and> total_energies r = [2]) \<and>
     self_points_optparams s' = Some [(1, [1])]"
proof -
  from example_duplicate_sweep obtain raw s' where
    run: "run_points [1, 1] example_bound_sampler = Inr (raw, s')" and
    val: "\<forall>r. dict_get raw 1 = Some r \<longrightarrow> total_energies r = [2]" and
    hist: "self_points_optparams s' = Some [(1, [1])]"
    by blast
  from example_single_sweep obtain raw_1 s_1 where
    run1: "run_points [1] example_bound_sampler = Inr (raw_1, s_1)" and
    val1: "\<forall>r. dict_get raw_1 1 = Some r \<longrightarrow> total_energies r = [1]"
    by blast
  note lww = run_points_last_write_wins [OF run]
  from lww have keys: "distinct (dict_keys raw)" "set (dict_keys raw) = {1}" by simp_all
  from lww have "\<forall>i < length [1, 1 :: real].
            (\<forall>j. i < j \<and> j < length [1, 1 :: real] \<longrightarrow> [1, 1 :: real] ! j \<noteq> [1, 1] ! i) \<longrightarrow>
            (\<exists>raw_i s_i r s_i'.
               run_points (take i [1, 1]) example_bound_sampler = Inr (raw_i, s_i) \<and>
               run_single_point ([1, 1] ! i) s_i = Inr (r, s_i') \<and>
               dict_get raw ([1, 1] ! i) = Some r)"
    by blast
  note at_index = this [THEN spec, of 1, THEN mp, THEN mp]
  have inb: "1 < length [1, 1 :: real]" by simp
  have "\<forall>j. 1 < j \<and> j < length [1, 1 :: real] \<longrightarrow> [1, 1 :: real] ! j \<noteq> [1, 1] ! 1"
    by simp
  from at_index [OF inb this]
  have "\<exists>raw_i s_i r s_i'.
          run_points [1] example_bound_sampler = Inr (raw_i, s_i) \<and>
          run_single_point 1 s_i = Inr (r, s_i') \<and> dict_get raw 1 = Some r"
    by simp
  then obtain raw_i s_i r s_i' where
    "run_points [1] example_bound_sampler = Inr (raw_i, s_i)"
    "run_single_point 1 s_i = Inr (r, s_i')"
    "dict_get raw 1 = Some r"
    by blast
  with run1 val have
    "run_single_point 1 s_1 = Inr (r, s_i')" "dict_get raw 1 = Some r" "total_energies r = [2]"
    by simp_all
  with run run1 val1 keys hist show ?thesis by blast
qed

subsection \<open>Solvers that are not variational\<close>

lemma set_geometry_solver:
  "set_geometry q s = Inr s1 \<Longrightarrow>
     self_solver s1 = self_solver s \<and> heap s1 = heap s \<and> self_gss s1 = self_gss s \<and>
     self_bootstrap s1 = self_bootstrap s"
  by (auto simp add: set_geometry_def split: option.splits sum.splits)

lemma set_geometry_kind:
  "set_geometry q s = Inr t \<Longrightarrow>
     solver_is_variational (t\<lparr>self_bootstrap := b\<rparr>) = solver_is_variational s"
  by (auto simp add: set_geometry_def solver_is_variational_def split: option.splits sum.splits)

lemma warm_start_non_variational:
  "\<not> solver_is_variational s \<Longrightarrow> warm_start q s = Inr s"
  by (auto simp add: warm_start_def solver_is_variational_def split: option.splits)

lemma reset_history_non_variational:
  "\<not> solver_is_variational s \<Longrightarrow> reset_history s = s"
  by (auto simp add: reset_history_def solver_is_variational_def split: option.splits)

lemma reset_history_kind:
  "solver_is_variational (reset_history s) = solver_is_variational s"
  by (auto simp add: reset_history_def solver_is_variational_def set_initial_point_def
           split: option.splits)

text \<open>
  Claim C8, as amended. In a sweep in which the solver is not variational at any stage
  (before the first point and after each evaluation), the warm start writes nothing at any
  point, whatever the bootstrap flag, and the point history is at every stage what it was
  before the sweep: a history that is unset or empty, as it is after the construction,
  remains so.
\<close>

theorem non_variational_bypass:
  assumes "\<forall>i \<le> length points. \<forall>raw_i s_i.
             run_points (take i points) s = Inr (raw_i, s_i) \<longrightarrow> \<not> solver_is_variational s_i"
  shows "\<forall>i \<le> length points. \<forall>raw_i s_i.
           run_points (take i points) s = Inr (raw_i, s_i) \<longrightarrow>
             self_points_optparams s_i = self_points_optparams s \<and>
             (\<forall>point t b. set_geometry point s_i = Inr t \<longrightarrow>
                warm_start point (t\<lparr>self_bootstrap := b\<rparr>) = Inr (t\<lparr>self_bootstrap := b\<rparr>))"
proof (intro allI impI)
  fix i raw_i s_i
  assume "i \<le> length points" and "run_points (take i points) s = Inr (raw_i, s_i)"
  then show "self_points_optparams s_i = self_points_optparams s \<and>
             (\<forall>point t b. set_geometry point s_i = Inr t \<longrightarrow>
                warm_start point (t\<lparr>self_bootstrap := b\<rparr>) = Inr (t\<lparr>self_bootstrap := b\<rparr>))"
  proof (induction i arbitrary: raw_i s_i)
    case 0
    then have s_i: "s_i = reset_history s" by (simp add: run_points_def)
    from assms "0.prems" have nv: "\<not> solver_is_variational s_i" by blast
    with s_i have "\<not> solver_is_variational s" by (simp add: reset_history_kind)
    with s_i have eq: "s_i = s" by (simp add: reset_history_non_variational)
    have "\<And>point t b. set_geometry point s_i = Inr t \<Longrightarrow>
            warm_start point (t\<lparr>self_bootstrap := b\<rparr>) = Inr (t\<lparr>self_bootstrap := b\<rparr>)"
    proof -
      fix point t b assume "set_geometry point s_i = Inr t"
      from set_geometry_kind [OF this] nv
      have "\<not> solver_is_variational (t\<lparr>self_bootstrap := b\<rparr>)"
        by simp
      then show "warm_start point (t\<lparr>self_bootstrap := b\<rparr>) = Inr (t\<lparr>self_bootstrap := b\<rparr>)"
        by (rule warm_start_non_variational)
    qed
    with eq show ?case by blast
  next
    case (Suc i)
    from Suc.prems(1) have i: "i < length points" by simp
    then have "take (Suc i) points = take i points @ [points ! i]"
      by (simp add: take_Suc_conv_app_nth)
    with Suc.prems(2) obtain raw0 s0 r where
      pre: "run_points (take i points) s = Inr (raw0, s0)" and
      step: "run_single_point (points ! i) s0 = Inr (r, s_i)"
      by (auto simp add: run_points_def run_loop_append split: sum.splits)
    from Suc.IH [OF _ pre] i have h0: "self_points_optparams s0 = self_points_optparams s"
      by simp
    from assms Suc.prems have nv: "\<not> solver_is_variational s_i" by blast
    with run_single_point_history [OF step] h0
    have h: "self_points_optparams s_i = self_points_optparams s" by simp
    have "\<And>point t b. set_geometry point s_i = Inr t \<Longrightarrow>
            warm_start point (t\<lparr>self_bootstrap := b\<rparr>) = Inr (t\<lparr>self_bootstrap := b\<rparr>)"
    proof -
      fix point t b assume "set_geometry point s_i = Inr t"
      from set_geometry_kind [OF this] nv
      have "\<not> solver_is_variational (t\<lparr>self_bootstrap := b\<rparr>)"
        by simp
      then show "warm_start point (t\<lparr>self_bootstrap := b\<rparr>) = Inr (t\<lparr>self_bootstrap := b\<rparr>)"
        by (rule warm_start_non_variational)
    qed
    with h show ?case by blast
  qed
qed

text \<open>With a ground-state solver the solver object never changes its kind, so it is enough
  that the solver is not variational before the sweep.\<close>

lemma warm_start_kind:
  "warm_start q s = Inr s1 \<Longrightarrow>
     self_gss s1 = self_gss s \<and> self_solver s1 = self_solver s \<and>
     (\<forall>b. is_VariationalAlgorithm (solvers (heap s1) b)
            = is_VariationalAlgorithm (solvers (heap s) b))"
  by (auto simp add: warm_start_def Let_def set_initial_point_def
           split: option.splits if_splits)

lemma prebound_run_single_point_kind:
  assumes "self_gss s = GroundStateSolver a f" and "run_single_point q s = Inr (r, s')"
  shows "self_gss s' = self_gss s \<and> solver_is_variational s' = solver_is_variational s"
proof -
  from assms(2) obtain s1 s2 s3 where
    g: "set_geometry q s = Inr s1" and
    w: "warm_start q s1 = Inr s2" and
    v: "solve s2 = Inr (r, s3)" and
    o: "save_optimal_point q r s3 = Inr s'"
    by (auto simp add: run_single_point_def split: sum.splits)
  from set_geometry_solver [OF g] warm_start_kind [OF w] assms(1)
  have s2: "self_gss s2 = GroundStateSolver a f" "self_solver s2 = self_solver s"
    "\<forall>b. is_VariationalAlgorithm (solvers (heap s2) b)
            = is_VariationalAlgorithm (solvers (heap s) b)"
    by simp_all
  with v have "s3 = s2" by (auto simp add: solve_def split: option.splits)
  with s2 have s3: "self_gss s3 = self_gss s" "solver_is_variational s3 = solver_is_variational s"
    using assms(1) by (simp_all add: solver_is_variational_def split: option.splits)
  from o have "self_gss s' = self_gss s3"
    by (auto simp add: save_optimal_point_def split: option.splits if_splits)
  with save_optimal_point_cases(1) [OF o] s3 show ?thesis by simp
qed

lemma prebound_run_loop_kind:
  "self_gss s = GroundStateSolver a f \<Longrightarrow> run_loop points raw s = Inr (raw', s') \<Longrightarrow>
     self_gss s' = self_gss s \<and> solver_is_variational s' = solver_is_variational s"
proof (induction points arbitrary: raw s)
  case Nil
  then show ?case by simp
next
  case (Cons q qs)
  from Cons.prems(2) obtain r s1 where
    step: "run_single_point q s = Inr (r, s1)" and
    rest: "run_loop qs (dict_setitem q r raw) s1 = Inr (raw', s')"
    by (auto split: sum.splits)
  from prebound_run_single_point_kind [OF Cons.prems(1) step]
  have k: "self_gss s1 = self_gss s" "solver_is_variational s1 = solver_is_variational s"
    by simp_all
  with Cons.prems(1) have "self_gss s1 = GroundStateSolver a f" by simp
  from Cons.IH [OF this rest] k show ?case by simp
qed

lemma prebound_run_points_kind:
  assumes "self_gss s = GroundStateSolver a f" and "run_points points s = Inr (raw, s')"
  shows "solver_is_variational s' = solver_is_variational s"
proof -
  have "self_gss (reset_history s) = GroundStateSolver a f"
    using assms(1) by (simp add: reset_history_def split: option.splits)
  from prebound_run_loop_kind [OF this] assms(2) show ?thesis
    by (simp add: run_points_def reset_history_kind)
qed

lemma example_numpy_sweep:
  "\<exists>raw s'. run_points [1, 2] example_numpy_sampler = Inr (raw, s')"
  by (simp add: example_numpy_sampler_def example_bound_sampler_def sampler_defs example_defs)

theorem non_variational_bypass_witness:
  "self_bootstrap example_numpy_sampler \<and>
   self_points_optparams example_numpy_sampler = None \<and>
   (\<exists>raw s'. run_points [1, 2] example_numpy_sampler = Inr (raw, s') \<and>
      self_points_optparams s' = None \<and>
      (\<forall>point t b. set_geometry point s' = Inr t \<longrightarrow>
         warm_start point (t\<lparr>self_bootstrap := b\<rparr>) = Inr (t\<lparr>self_bootstrap := b\<rparr>)))"
proof -
  have g: "self_gss example_numpy_sampler = GroundStateSolver 1 example_solve"
    and nv: "\<not> solver_is_variational example_numpy_sampler"
    and b: "self_bootstrap example_numpy_sampler"
    and h: "self_points_optparams example_numpy_sampler = None"
    by (simp_all add: example_numpy_sampler_def example_bound_sampler_def
          solver_is_variational_def example_defs)
  have hyp: "\<forall>i \<le> length [1, 2 :: real]. \<forall>raw_i s_i.
               run_points (take i [1, 2]) example_numpy_sampler = Inr (raw_i, s_i) \<longrightarrow>
               \<not> solver_is_variational s_i"
    using prebound_run_points_kind [OF g] nv by blast
  from example_numpy_sweep obtain raw s' where
    run: "run_points [1, 2] example_numpy_sampler = Inr (raw, s')"
    by blast
  have "2 \<le> length [1, 2 :: real]" by simp
  moreover from run have "run_points (take 2 [1, 2]) example_numpy_sampler = Inr (raw, s')"
    by simp
  ultimately have
    "self_points_optparams s' = self_points_optparams example_numpy_sampler \<and>
     (\<forall>point t b. set_geometry point s' = Inr t \<longrightarrow>
        warm_start point (t\<lparr>self_bootstrap := b\<rparr>) = Inr (t\<lparr>self_bootstrap := b\<rparr>))"
    using non_variational_bypass [OF hyp] by blast
  with run b h show ?thesis by auto
qed

lemma example_non_variational_second_sweep:
  "\<exists>res1 s1 t raw s2.
     sample example_problem [1] example_factory_sampler = Inr (res1, s1) \<and>
     force_solver vibrational_problem (s1\<lparr>self_problem := Some vibrational_problem\<rparr>) = Inr t \<and>
     \<not> solver_is_variational t \<and> self_points_optparams t = Some [(1, [7])] \<and>
     run_points [2] t = Inr (raw, s2) \<and>
     \<not> solver_is_variational s2 \<and> self_points_optparams s2 = Some [(1, [7])]"
  by (simp add: sample_def example_factory_sampler_def kind_by_problem_factory_def
        vibrational_problem_def sampler_defs example_defs)

text \<open>The claim as stated fails where the history is not empty before the sweep. On the
  sampler built on the factory, a first call leaves the history \<open>{1: [7]}\<close>; in the second
  call the solver is not variational at any stage, and the history is \<open>{1: [7]}\<close> at every
  stage.\<close>

theorem non_variational_sweep_keeps_old_history:
  "\<exists>res1 s1 t.
     sample example_problem [1] example_factory_sampler = Inr (res1, s1) \<and>
     force_solver vibrational_problem (s1\<lparr>self_problem := Some vibrational_problem\<rparr>) = Inr t \<and>
     (\<exists>raw s2. run_points [2] t = Inr (raw, s2)) \<and>
     (\<forall>i \<le> length [2 :: real]. \<forall>raw_i s_i.
        run_points (take i [2]) t = Inr (raw_i, s_i) \<longrightarrow>
          \<not> solver_is_variational s_i \<and> self_points_optparams s_i = Some [(1, [7])])"
proof -
  from example_non_variational_second_sweep obtain res1 s1 t raw s2 where
    c: "sample example_problem [1] example_factory_sampler = Inr (res1, s1)" and
    f: "force_solver vibrational_problem (s1\<lparr>self_problem := Some vibrational_problem\<rparr>) = Inr t"
    and t: "\<not> solver_is_variational t" "self_points_optparams t = Some [(1, [7])]"
    and r: "run_points [2] t = Inr (raw, s2)"
    and s2: "\<not> solver_is_variational s2" "self_points_optparams s2 = Some [(1, [7])]"
    by blast
  have "\<forall>i \<le> length [2 :: real]. \<forall>raw_i s_i.
          run_points (take i [2]) t = Inr (raw_i, s_i) \<longrightarrow>
            \<not> solver_is_variational s_i \<and> self_points_optparams s_i = Some [(1, [7])]"
  proof (intro allI impI)
    fix i raw_i s_i
    assume "i \<le> length [2 :: real]" and run: "run_points (take i [2]) t = Inr (raw_i, s_i)"
    then have "i = 0 \<or> i = 1" by auto
    then show "\<not> solver_is_variational s_i \<and> self_points_optparams s_i = Some [(1, [7])]"
    proof
      assume "i = 0"
      with run t show ?thesis by (simp add: run_points_def reset_history_non_variational)
    next
      assume "i = 1"
      with run r s2 show ?thesis by simp
    qed
  qed
  with c f r show ?thesis by blast
qed

subsection \<open>The point history across calls of \<^verbatim>\<open>sample\<close>\<close>

lemma example_factory_sampler_init:
  "init (MinimumEigensolverFactory kind_by_problem_factory) 0.001 True None None
      (Some example_converter) example_store = Inr example_factory_sampler"
  by (simp add: init_def Let_def example_factory_sampler_def example_sampler_def)










subsection \<open>The initial point of the solving instance\<close>

lemma example_fresh_factory_sampler_init:
  "init (MinimumEigensolverFactory fresh_factory) 0.001 True None None
      (Some example_converter) example_store = Inr example_fresh_factory_sampler"
  by (simp add: init_def Let_def example_fresh_factory_sampler_def example_sampler_def)

text \<open>With a ground-state solver the object that solves is the one the warm start writes to:
  before the first point it holds the saved initial point, and at a later point the solve
  reads the nearest neighbour that the warm start has just assigned.\<close>

lemma reset_history_initial_point:
  "self_solver s = Some a \<Longrightarrow> is_VariationalAlgorithm (solvers (heap s) a) \<Longrightarrow>
     initial_point (solvers (heap (reset_history s)) a) = self_initial_point s"
  by (simp add: reset_history_def set_initial_point_def)

lemma prebound_solve_reads_warm_start:
  assumes "self_gss s = GroundStateSolver a f"
      and "self_solver s = Some a"
      and "is_VariationalAlgorithm (solvers (heap s) a)"
      and "self_bootstrap s"
      and "self_points_optparams s = Some history"
      and "history \<noteq> []"
      and "self_extrapolator s = None"
      and "self_problem s = Some p"
  shows "\<exists>guess w. nearest_by_computed_distance point history = Some guess \<and>
           warm_start point s = Inr w \<and>
           initial_point (solvers (heap w) a) = Some guess \<and>
           solve w = Inr (f p (solvers (heap w) a), w)"
  using assms nearest_by_computed_distance_argmin [OF assms(6), of point]
  by (auto simp add: warm_start_def solve_def Let_def dict_keys_def set_initial_point_def
           split: option.splits)

text \<open>
  Claim C2, at the input where the code departs from it. With a factory that builds a new
  solver at every call, the sweep over the points 1, 2 reaches the second point with the
  history \<open>{1: [7]}\<close>. The warm start assigns the nearest neighbour \<open>[7]\<close> to the solver at
  address 3, the one obtained for the first point; the solve then asks the factory again and
  solves with the new solver at address 4, which is variational and whose initial point is
  still \<^verbatim>\<open>None\<close>: the result is the one computed without an initial point, not the one
  computed from \<open>[7]\<close>.
\<close>

theorem factory_solver_misses_warm_start:
  "\<exists>s0 raw s1 t w r s3.
     force_solver example_problem
       (example_fresh_factory_sampler\<lparr>self_problem := Some example_problem\<rparr>) = Inr s0 \<and>
     run_points [1] s0 = Inr (raw, s1) \<and>
     self_points_optparams s1 = Some [(1, [7])] \<and>
     set_geometry 2 s1 = Inr t \<and>
     warm_start 2 t = Inr w \<and>
     self_solver w = Some 3 \<and> initial_point (solvers (heap w) 3) = Some [7] \<and>
     solve w = Inr (r, s3) \<and>
     self_solver s3 = Some 4 \<and> is_VariationalAlgorithm (solvers (heap s3) 4) \<and>
     initial_point (solvers (heap s3) 4) = None \<and>
     r = problem_interpret example_problem (example_compute (QubitOp ''H'') None) \<and>
     r \<noteq> problem_interpret example_problem (example_compute (QubitOp ''H'') (Some [7]))"
  by (simp add: example_fresh_factory_sampler_def fresh_factory_def
        sampler_defs example_defs)

text \<open>The whole call: both energies are those of a solve without an initial point.\<close>

lemma factory_sweep_ignores_warm_start:
  "\<exists>res s'. sample example_problem [1, 2] example_fresh_factory_sampler = Inr (res, s') \<and>
     result_energies res = [0, 0]"
  by (simp add: sample_def example_fresh_factory_sampler_def fresh_factory_def
        sampler_defs example_defs)

end
